theory Spec2Isabelle
  imports Complex_Main
begin

section \<open>Local-Captcha: the image pipeline of captcha.py and the wrapper of web_api.py\<close>

text \<open>
  The program is Python over Pillow. Python floats are modelled as exact reals, Python
  ints as \<open>int\<close>, an 8-bit band value as an \<open>int\<close> that every operation clips to
  \<open>0..255\<close>. An exception is a value \<open>Inl e\<close> of a sum type. The module-level generator
  of Python's \<open>random\<close> is an explicit state that every drawing call takes and returns.
  Pillow's rasterisers (glyph drawing, rotation, mesh warp, blur, the noise generator,
  line drawing) are not part of the repository: they are fields of a record \<open>pil\<close> that
  every pipeline function takes as its first argument.
\<close>

subsection \<open>Python numbers and exceptions\<close>

datatype error = ValueError

text \<open>\<open>int(v)\<close> on a float truncates towards zero.\<close>

definition py_int :: "real \<Rightarrow> int" where
  "py_int v = (if 0 \<le> v then \<lfloor>v\<rfloor> else \<lceil>v\<rceil>)"

text \<open>Sequencing of calls that may raise: the first exception ends the computation.\<close>

definition seq :: "error + 'a \<Rightarrow> ('a \<Rightarrow> error + 'b) \<Rightarrow> error + 'b" where
  "seq m f = (case m of Inl e \<Rightarrow> Inl e | Inr v \<Rightarrow> f v)"

text \<open>
  \<open>range(start, stop, step)\<close> as a list: \<open>ValueError\<close> for a zero step, otherwise the
  values \<open>start + k * step\<close> on the stop's near side.
\<close>

definition py_range :: "int \<Rightarrow> int \<Rightarrow> int \<Rightarrow> error + int list" where
  "py_range start stop step =
     (if step = 0 then Inl ValueError
      else if 0 < step
        then Inr (map (\<lambda>k. start + int k * step) [0 ..< nat ((stop - start + step - 1) div step)])
        else Inr (map (\<lambda>k. start + int k * step) [0 ..< nat ((start - stop - step - 1) div (- step))]))"

subsection \<open>The module-level random generator\<close>

text \<open>
  The generator's state is a tape of raw draws and a position. \<open>random.random()\<close> is a
  53-bit fraction in \<open>[0, 1)\<close>; \<open>random.uniform(a, b)\<close> is \<open>a + (b - a) * random()\<close>;
  \<open>random.randint(a, b)\<close> raises \<open>ValueError\<close> on an empty range and otherwise
  returns \<open>a\<close> plus a draw below \<open>b - a + 1\<close>. Each call consumes one cell of the tape.
\<close>

datatype rng = Rng (tape: "nat \<Rightarrow> nat") (pos: nat)

definition next_raw :: "rng \<Rightarrow> nat \<times> rng" where
  "next_raw g = (tape g (pos g), Rng (tape g) (Suc (pos g)))"

definition random_random :: "rng \<Rightarrow> real \<times> rng" where
  "random_random g = (real (fst (next_raw g) mod 2 ^ 53) / 2 ^ 53, snd (next_raw g))"

definition random_uniform :: "real \<Rightarrow> real \<Rightarrow> rng \<Rightarrow> real \<times> rng" where
  "random_uniform a b g = (a + (b - a) * fst (random_random g), snd (random_random g))"

definition random_randint :: "int \<Rightarrow> int \<Rightarrow> rng \<Rightarrow> error + int \<times> rng" where
  "random_randint a b g =
     (if b < a then Inl ValueError
      else Inr (a + int (fst (next_raw g) mod nat (b - a + 1)), snd (next_raw g)))"

subsection \<open>Image buffers and Pillow's pixel operations\<close>

record 'p image =
  im_w :: int
  im_h :: int
  im_px :: "int \<Rightarrow> int \<Rightarrow> 'p"

type_synonym rgba = "int \<times> int \<times> int \<times> int"

definition clip8 :: "int \<Rightarrow> int" where
  "clip8 v = max 0 (min 255 v)"

definition rgba8 :: "rgba \<Rightarrow> rgba" where
  "rgba8 p = (case p of (r, g, b, a) \<Rightarrow> (clip8 r, clip8 g, clip8 b, clip8 a))"

fun red_of :: "rgba \<Rightarrow> int" where "red_of (r, g, b, a) = r"
fun green_of :: "rgba \<Rightarrow> int" where "green_of (r, g, b, a) = g"
fun blue_of :: "rgba \<Rightarrow> int" where "blue_of (r, g, b, a) = b"
fun alpha_of :: "rgba \<Rightarrow> int" where "alpha_of (r, g, b, a) = a"

definition in_image :: "'p image \<Rightarrow> int \<Rightarrow> int \<Rightarrow> bool" where
  "in_image im x y = (0 \<le> x \<and> x < im_w im \<and> 0 \<le> y \<and> y < im_h im)"

text \<open>\<open>Image.new(mode, (w, h), color)\<close>: Pillow refuses a negative size.\<close>

definition image_new :: "int \<Rightarrow> int \<Rightarrow> 'p \<Rightarrow> error + 'p image" where
  "image_new w h c =
     (if w < 0 \<or> h < 0 then Inl ValueError
      else Inr \<lparr>im_w = w, im_h = h, im_px = (\<lambda>x y. c)\<rparr>)"

text \<open>\<open>im.split()\<close>: one band of an RGBA buffer as a grayscale buffer.\<close>

definition band :: "(rgba \<Rightarrow> int) \<Rightarrow> rgba image \<Rightarrow> int image" where
  "band sel im = \<lparr>im_w = im_w im, im_h = im_h im, im_px = (\<lambda>x y. sel (im_px im x y))\<rparr>"

text \<open>\<open>Image.merge("RGBA", (r, g, b, a))\<close>: the bands must have one size.\<close>

definition merge_rgba :: "int image \<Rightarrow> int image \<Rightarrow> int image \<Rightarrow> int image \<Rightarrow> error + rgba image" where
  "merge_rgba r g b a =
     (if (im_w g, im_h g) \<noteq> (im_w r, im_h r) \<or> (im_w b, im_h b) \<noteq> (im_w r, im_h r)
         \<or> (im_w a, im_h a) \<noteq> (im_w r, im_h r)
      then Inl ValueError
      else Inr \<lparr>im_w = im_w r, im_h = im_h r,
                im_px = (\<lambda>x y. (im_px r x y, im_px g x y, im_px b x y, im_px a x y))\<rparr>)"

text \<open>
  \<open>im.point(f)\<close> on a grayscale buffer: \<open>f\<close> is tabulated over \<open>0..255\<close> and the table's
  entries are stored as 8-bit values.
\<close>

definition point :: "(int \<Rightarrow> int) \<Rightarrow> int image \<Rightarrow> int image" where
  "point f im = im\<lparr>im_px := (\<lambda>x y. clip8 (f (im_px im x y)))\<rparr>"

text \<open>
  \<open>ImageChops.add\<close>, \<open>subtract\<close> (scale 1, offset 0) and \<open>lighter\<close>: pixelwise, clipped to
  \<open>0..255\<close>, over the common part of the two buffers.
\<close>

definition chop :: "(int \<Rightarrow> int \<Rightarrow> int) \<Rightarrow> int image \<Rightarrow> int image \<Rightarrow> int image" where
  "chop f a b = \<lparr>im_w = min (im_w a) (im_w b), im_h = min (im_h a) (im_h b),
                 im_px = (\<lambda>x y. clip8 (f (im_px a x y) (im_px b x y)))\<rparr>"

definition chops_add :: "int image \<Rightarrow> int image \<Rightarrow> int image" where
  "chops_add = chop (\<lambda>p q. p + q)"

definition chops_subtract :: "int image \<Rightarrow> int image \<Rightarrow> int image" where
  "chops_subtract = chop (\<lambda>p q. p - q)"

definition chops_lighter :: "int image \<Rightarrow> int image \<Rightarrow> int image" where
  "chops_lighter = chop max"

text \<open>Pillow's rounded division by 255 of a 16-bit product, \<open>((t >> 8) + t) >> 8\<close>.\<close>

definition shift_div255 :: "int \<Rightarrow> int" where
  "shift_div255 t = (t div 256 + t) div 256"

definition div255 :: "int \<Rightarrow> int" where
  "div255 t = shift_div255 (t + 128)"

text \<open>
  \<open>dst.paste(src, (bx, by), src)\<close>: inside the box, clipped to \<open>dst\<close>, every band of the
  destination pixel is blended with the source pixel, weighted by the source's alpha.
\<close>

definition blend8 :: "int \<Rightarrow> int \<Rightarrow> int \<Rightarrow> int" where
  "blend8 m d s = div255 (d * (255 - m) + s * m)"

definition paste_px :: "rgba \<Rightarrow> rgba \<Rightarrow> rgba" where
  "paste_px d s =
     (blend8 (alpha_of s) (red_of d) (red_of s), blend8 (alpha_of s) (green_of d) (green_of s),
      blend8 (alpha_of s) (blue_of d) (blue_of s), blend8 (alpha_of s) (alpha_of d) (alpha_of s))"

definition paste :: "rgba image \<Rightarrow> rgba image \<Rightarrow> int \<Rightarrow> int \<Rightarrow> rgba image" where
  "paste dst src bx by =
     dst\<lparr>im_px := (\<lambda>x y.
        if in_image dst x y \<and> in_image src (x - bx) (y - by)
        then paste_px (im_px dst x y) (im_px src (x - bx) (y - by))
        else im_px dst x y)\<rparr>"

text \<open>
  \<open>Image.alpha_composite(dst, src)\<close>: \<open>src\<close> over \<open>dst\<close>, in Pillow's integer arithmetic
  with 7 extra bits; the two buffers must have one size.
\<close>

definition composite_px :: "rgba \<Rightarrow> rgba \<Rightarrow> rgba" where
  "composite_px d s =
     (if alpha_of s = 0 then d
      else
        let outa255 = alpha_of s * 255 + alpha_of d * (255 - alpha_of s);
            coef1 = alpha_of s * 255 * 255 * 128 div outa255;
            coef2 = 255 * 128 - coef1;
            mix = (\<lambda>sc dc. shift_div255 (sc * coef1 + dc * coef2 + 128 * 128) div 128)
        in (mix (red_of s) (red_of d), mix (green_of s) (green_of d),
            mix (blue_of s) (blue_of d), shift_div255 (outa255 + 128)))"

definition alpha_composite :: "rgba image \<Rightarrow> rgba image \<Rightarrow> error + rgba image" where
  "alpha_composite dst src =
     (if (im_w dst, im_h dst) \<noteq> (im_w src, im_h src) then Inl ValueError
      else Inr (dst\<lparr>im_px := (\<lambda>x y. composite_px (im_px dst x y) (im_px src x y))\<rparr>))"

subsection \<open>Pillow's rasterisers and the fonts of the machine\<close>

datatype font = TrueType string int | DefaultFont

type_synonym box = "int \<times> int \<times> int \<times> int"
type_synonym quad = "int \<times> int \<times> int \<times> int \<times> int \<times> int \<times> int \<times> int"

text \<open>
  What one invocation gets from outside the repository. \<open>truetype_ok path size\<close>: whether
  \<open>ImageFont.truetype(path, size)\<close> loads. \<open>has_MESH\<close>: \<open>hasattr(Image, "MESH")\<close>.
  \<open>text_px\<close>: the pixels of a glyph canvas after \<open>ImageDraw.text((x, y), ch, font, fill)\<close>.
  \<open>rotate_expand\<close>: \<open>im.rotate(angle, BICUBIC, expand=1)\<close>, which resizes the canvas.
  \<open>rotate_px\<close>: the pixels of \<open>im.rotate(angle, BICUBIC, expand=False)\<close>.
  \<open>mesh_px\<close>: the pixels of \<open>im.transform((w, h), MESH, mesh, BICUBIC)\<close>, \<open>None\<close> when
  it raises. \<open>blur_px\<close>: the pixels of \<open>im.filter(GaussianBlur(radius))\<close>.
  \<open>effect_noise\<close>: the pixels of \<open>Image.effect_noise((w, h), sigma)\<close>, \<open>None\<close> when it
  raises; Pillow draws this field from the C library's generator, not from Python's
  \<open>random\<close>, so it is a datum of the invocation. \<open>line_px\<close>: whether
  \<open>ImageDraw.line((x0, y0, x1, y1), width)\<close> covers a pixel. \<open>png_data\<close>: the PNG
  encoding of a buffer in base64.
\<close>

record pil =
  truetype_ok :: "string \<Rightarrow> int \<Rightarrow> bool"
  has_MESH :: bool
  text_px :: "font \<Rightarrow> char \<Rightarrow> int \<Rightarrow> int \<Rightarrow> rgba \<Rightarrow> rgba image \<Rightarrow> int \<Rightarrow> int \<Rightarrow> rgba"
  rotate_expand :: "real \<Rightarrow> rgba image \<Rightarrow> rgba image"
  rotate_px :: "real \<Rightarrow> rgba image \<Rightarrow> int \<Rightarrow> int \<Rightarrow> rgba"
  mesh_px :: "int \<Rightarrow> int \<Rightarrow> (box \<times> quad) list \<Rightarrow> rgba image \<Rightarrow> (int \<Rightarrow> int \<Rightarrow> rgba) option"
  blur_px :: "real \<Rightarrow> rgba image \<Rightarrow> int \<Rightarrow> int \<Rightarrow> rgba"
  effect_noise :: "int \<Rightarrow> int \<Rightarrow> int \<Rightarrow> (int \<Rightarrow> int \<Rightarrow> int) option"
  line_px :: "box \<Rightarrow> int \<Rightarrow> int \<Rightarrow> int \<Rightarrow> bool"
  png_data :: "rgba image \<Rightarrow> string"

text \<open>A rasteriser's pixels, stored in a buffer of a given size as 8-bit bands.\<close>

definition raster :: "int \<Rightarrow> int \<Rightarrow> (int \<Rightarrow> int \<Rightarrow> rgba) \<Rightarrow> rgba image" where
  "raster w h f = \<lparr>im_w = w, im_h = h, im_px = (\<lambda>x y. rgba8 (f x y))\<rparr>"

subsection \<open>captcha.py: font loading\<close>

definition candidates :: "string list" where
  "candidates = [''arial.ttf'', ''/usr/share/fonts/truetype/dejavu/DejaVuSans.ttf'',
                 ''/usr/share/fonts/truetype/liberation/LiberationSans-Regular.ttf'']"

primrec try_fonts :: "pil \<Rightarrow> int \<Rightarrow> string list \<Rightarrow> font" where
  "try_fonts E sz [] = DefaultFont"
| "try_fonts E sz (p # ps) =
     (if truetype_ok E p sz then TrueType p sz else try_fonts E sz ps)"

definition load_font :: "pil \<Rightarrow> int \<Rightarrow> font" where
  "load_font E sz = try_fonts E sz candidates"

definition resolve_font :: "pil \<Rightarrow> string option \<Rightarrow> int \<Rightarrow> font" where
  "resolve_font E font_path font_size =
     (case font_path of
        None \<Rightarrow> load_font E font_size
      | Some fp \<Rightarrow>
          if fp \<noteq> [] \<and> truetype_ok E fp font_size then TrueType fp font_size
          else load_font E font_size)"

subsection \<open>captcha.py: parameters\<close>

record params =
  p_text :: string
  p_width :: "int option"
  p_height :: int
  p_font_path :: "string option"
  p_font_size :: int
  p_mesh_steps :: "int \<times> int"
  p_grid_spacing :: int
  p_distortion :: real
  p_noise :: real
  p_grid_strength :: real
  p_rotation :: real
  p_protect_text :: bool

definition clamp01 :: "real \<Rightarrow> real" where
  "clamp01 v = max 0 (min 1 v)"

definition resolve_width :: "int option \<Rightarrow> string \<Rightarrow> int \<Rightarrow> int" where
  "resolve_width width txt font_size =
     (case width of
        None \<Rightarrow> max 220 (py_int (real_of_int (int (length txt) * font_size) * 0.6) + 60)
      | Some wd \<Rightarrow> wd)"

subsection \<open>captcha.py: the glyph renderer\<close>

definition glyph :: "pil \<Rightarrow> font \<Rightarrow> int \<Rightarrow> int \<Rightarrow> real \<Rightarrow> char \<Rightarrow> rng \<Rightarrow> error + rgba image \<times> rng" where
  "glyph E fnt font_size h rotation ch g =
     seq (image_new (py_int (real_of_int font_size * 1.05) + 8) h (0, 0, 0, 0)) (\<lambda>ch_img.
       let y_offset = max 0 ((h - font_size) div 2 - 2);
           drawn = raster (im_w ch_img) (im_h ch_img)
                     (text_px E fnt ch 4 y_offset (10, 10, 10, 255) ch_img);
           max_angle = 12;
           angle = fst (random_uniform (- max_angle * rotation) (max_angle * rotation) g);
           g1 = snd (random_uniform (- max_angle * rotation) (max_angle * rotation) g);
           turned = rotate_expand E angle drawn
       in Inr (raster (im_w turned) (im_h turned) (im_px turned), g1))"

fun render_text ::
  "pil \<Rightarrow> font \<Rightarrow> int \<Rightarrow> int \<Rightarrow> int \<Rightarrow> real \<Rightarrow> string \<Rightarrow> rgba image \<Rightarrow> int \<Rightarrow> rng
   \<Rightarrow> error + rgba image \<times> int \<times> rng" where
  "render_text E fnt font_size w h rotation [] text_layer x g = Inr (text_layer, x, g)"
| "render_text E fnt font_size w h rotation (ch # rest) text_layer x g =
     (case glyph E fnt font_size h rotation ch g of
        Inl e \<Rightarrow> Inl e
      | Inr (ch_img, g1) \<Rightarrow>
          if x + im_w ch_img > w - 20 then Inr (text_layer, x, g1)
          else
            (case random_randint (- 1) 3 g1 of
               Inl e \<Rightarrow> Inl e
             | Inr (j, g2) \<Rightarrow>
                 render_text E fnt font_size w h rotation rest
                   (paste text_layer ch_img x 0)
                   (x + (py_int (real_of_int font_size * 0.68) + j)) g2))"

definition text_stage ::
  "pil \<Rightarrow> string option \<Rightarrow> int \<Rightarrow> int \<Rightarrow> int \<Rightarrow> real \<Rightarrow> string \<Rightarrow> rng \<Rightarrow> error + rgba image \<times> rng" where
  "text_stage E font_path font_size w h rotation txt g =
     seq (image_new w h (0, 0, 0, 0)) (\<lambda>text_layer.
     seq (render_text E (resolve_font E font_path font_size) font_size w h rotation txt text_layer 20 g)
       (\<lambda>(layer, x, g1). Inr (layer, g1)))"

subsection \<open>captcha.py: the mesh distorter and the smoother\<close>

definition offset :: "real \<Rightarrow> rng \<Rightarrow> int \<times> rng" where
  "offset m g = (py_int (fst (random_uniform (- m) m g)), snd (random_uniform (- m) m g))"

definition mesh_cell :: "real \<Rightarrow> real \<Rightarrow> real \<Rightarrow> real \<Rightarrow> int \<times> int \<Rightarrow> rng \<Rightarrow> (box \<times> quad) \<times> rng" where
  "mesh_cell cell_w cell_h max_offset_x max_offset_y ij g =
     (case ij of (i, j) \<Rightarrow>
      let x0 = py_int (real_of_int i * cell_w);
          y0 = py_int (real_of_int j * cell_h);
          x1 = py_int (real_of_int (i + 1) * cell_w);
          y1 = py_int (real_of_int (j + 1) * cell_h)
      in case offset max_offset_x g of (dx0, g1) \<Rightarrow>
         case offset max_offset_y g1 of (dy0, g2) \<Rightarrow>
         case offset max_offset_x g2 of (dx1, g3) \<Rightarrow>
         case offset max_offset_y g3 of (dy1, g4) \<Rightarrow>
         case offset max_offset_x g4 of (dx2, g5) \<Rightarrow>
         case offset max_offset_y g5 of (dy2, g6) \<Rightarrow>
         case offset max_offset_x g6 of (dx3, g7) \<Rightarrow>
         case offset max_offset_y g7 of (dy3, g8) \<Rightarrow>
           (((x0, y0, x1, y1),
             (x0 + dx0, y0 + dy0, x1 + dx1, y0 + dy1, x1 + dx2, y1 + dy2, x0 + dx3, y1 + dy3)),
            g8))"

primrec mesh_loop ::
  "real \<Rightarrow> real \<Rightarrow> real \<Rightarrow> real \<Rightarrow> (int \<times> int) list \<Rightarrow> rng \<Rightarrow> (box \<times> quad) list \<times> rng" where
  "mesh_loop cell_w cell_h max_offset_x max_offset_y [] g = ([], g)"
| "mesh_loop cell_w cell_h max_offset_x max_offset_y (ij # rest) g =
     (case mesh_cell cell_w cell_h max_offset_x max_offset_y ij g of (c, g1) \<Rightarrow>
      case mesh_loop cell_w cell_h max_offset_x max_offset_y rest g1 of (cs, g2) \<Rightarrow>
        (c # cs, g2))"

definition build_mesh :: "int \<Rightarrow> int \<Rightarrow> int \<times> int \<Rightarrow> real \<Rightarrow> rng \<Rightarrow> (box \<times> quad) list \<times> rng" where
  "build_mesh w h mesh_steps distortion g =
     (let nx = max 1 (fst mesh_steps);
          ny = max 1 (snd mesh_steps);
          cell_w = real_of_int w / real_of_int nx;
          cell_h = real_of_int h / real_of_int ny;
          base_x_factor = 0.25;
          base_y_factor = 0.30;
          max_offset_x = max 1 (cell_w * base_x_factor * distortion);
          max_offset_y = max 1 (cell_h * base_y_factor * distortion)
      in mesh_loop cell_w cell_h max_offset_x max_offset_y
           (List.product [0 .. nx - 1] [0 .. ny - 1]) g)"

definition rotate_same :: "pil \<Rightarrow> real \<Rightarrow> rgba image \<Rightarrow> rgba image" where
  "rotate_same E angle im = raster (im_w im) (im_h im) (rotate_px E angle im)"

definition distort ::
  "pil \<Rightarrow> int \<Rightarrow> int \<Rightarrow> real \<Rightarrow> real \<Rightarrow> (box \<times> quad) list \<Rightarrow> rgba image \<Rightarrow> rng \<Rightarrow> rgba image \<times> rng" where
  "distort E w h distortion rotation mesh composed g =
     (if distortion > 0.001 \<and> has_MESH E then
        (case mesh_px E w h mesh composed of
           Some px \<Rightarrow> (raster w h px, g)
         | None \<Rightarrow>
             (rotate_same E (fst (random_uniform (- 2) 2 g)) composed,
              snd (random_uniform (- 2) 2 g)))
      else
        (rotate_same E (fst (random_uniform (- 1) 1 g) * rotation) composed,
         snd (random_uniform (- 1) 1 g)))"

definition smooth :: "pil \<Rightarrow> real \<Rightarrow> rgba image \<Rightarrow> rgba image" where
  "smooth E distortion composed =
     raster (im_w composed) (im_h composed) (blur_px E (0.3 * (0.5 + distortion * 0.5)) composed)"

definition warp_stage ::
  "pil \<Rightarrow> int \<Rightarrow> int \<Rightarrow> int \<times> int \<Rightarrow> real \<Rightarrow> real \<Rightarrow> rgba image \<Rightarrow> rng \<Rightarrow> rgba image \<times> rng" where
  "warp_stage E w h mesh_steps distortion rotation composed g =
     (case build_mesh w h mesh_steps distortion g of (mesh, g1) \<Rightarrow>
      case distort E w h distortion rotation mesh composed g1 of (warped, g2) \<Rightarrow>
        (smooth E distortion warped, g2))"

subsection \<open>captcha.py: the noise field and the grid\<close>

definition noise_amp :: "real \<Rightarrow> int" where
  "noise_amp noise = py_int (8 + 120 * noise)"

text \<open>\<open>npix[xx, yy] = v\<close> on a grayscale buffer.\<close>

definition putpixel :: "int image \<Rightarrow> int \<Rightarrow> int \<Rightarrow> int \<Rightarrow> int image" where
  "putpixel im xx yy v = im\<lparr>im_px := (\<lambda>x y. if x = xx \<and> y = yy then clip8 v else im_px im x y)\<rparr>"

text \<open>The pixels in the order of \<open>for yy in range(h): for xx in range(w)\<close>.\<close>

definition scan_order :: "int \<Rightarrow> int \<Rightarrow> (int \<times> int) list" where
  "scan_order w h = concat (map (\<lambda>yy. map (\<lambda>xx. (xx, yy)) [0 .. w - 1]) [0 .. h - 1])"

primrec manual_noise :: "real \<Rightarrow> (int \<times> int) list \<Rightarrow> int image \<Rightarrow> rng \<Rightarrow> int image \<times> rng" where
  "manual_noise noise [] noise_img g = (noise_img, g)"
| "manual_noise noise (c # rest) noise_img g =
     manual_noise noise rest
       (putpixel noise_img (fst c) (snd c)
          (py_int (128 + (127 * noise) * (fst (random_random g) - 0.5))))
       (snd (random_random g))"

definition noise_field :: "pil \<Rightarrow> int \<Rightarrow> int \<Rightarrow> real \<Rightarrow> rng \<Rightarrow> error + int image \<times> rng" where
  "noise_field E w h noise g =
     (case effect_noise E w h (noise_amp noise) of
        Some f \<Rightarrow> Inr (\<lparr>im_w = w, im_h = h, im_px = (\<lambda>x y. clip8 (f x y))\<rparr>, g)
      | None \<Rightarrow>
          seq (image_new w h 0) (\<lambda>noise_img.
            Inr (manual_noise noise (scan_order w h) noise_img g)))"

text \<open>\<open>ImageDraw.rectangle([x0, y0, x1, y1], fill)\<close>: both corners are inside the box.\<close>

definition rectangle :: "int image \<Rightarrow> int \<Rightarrow> int \<Rightarrow> int \<Rightarrow> int \<Rightarrow> int \<Rightarrow> int image" where
  "rectangle im x0 y0 x1 y1 fill =
     im\<lparr>im_px := (\<lambda>x y.
        if in_image im x y \<and> x0 \<le> x \<and> x \<le> x1 \<and> y0 \<le> y \<and> y \<le> y1 then clip8 fill
        else im_px im x y)\<rparr>"

definition line_w :: "int \<Rightarrow> real \<Rightarrow> int" where
  "line_w grid_spacing grid_strength =
     max 1 (py_int (max 1 (real_of_int grid_spacing * 0.06) * (0.3 + grid_strength)))"

definition line_opacity :: "real \<Rightarrow> int" where
  "line_opacity grid_strength = py_int (48 + 160 * grid_strength)"

definition grid_overlay :: "int \<Rightarrow> int \<Rightarrow> int \<Rightarrow> real \<Rightarrow> error + int image" where
  "grid_overlay w h grid_spacing grid_strength =
     seq (image_new w h 0) (\<lambda>grid.
     seq (py_range 0 w grid_spacing) (\<lambda>gxs.
     seq (py_range 0 h grid_spacing) (\<lambda>gys.
       Inr (fold (\<lambda>gy im. rectangle im 0 (gy - line_w grid_spacing grid_strength) w
                            (gy + line_w grid_spacing grid_strength) (line_opacity grid_strength))
              gys
              (fold (\<lambda>gx im. rectangle im (gx - line_w grid_spacing grid_strength) 0
                               (gx + line_w grid_spacing grid_strength) h (line_opacity grid_strength))
                 gxs grid)))))"

subsection \<open>captcha.py: the alpha blender\<close>

definition noise_scaled :: "real \<Rightarrow> int image \<Rightarrow> int image" where
  "noise_scaled noise noise_img = point (\<lambda>p. py_int (real_of_int p * noise * 0.85)) noise_img"

definition base_sub :: "real \<Rightarrow> real \<Rightarrow> int" where
  "base_sub noise grid_strength = py_int (10 + 140 * (0.2 * noise + 0.8 * grid_strength))"

definition alpha_map :: "real \<Rightarrow> real \<Rightarrow> int image \<Rightarrow> int image" where
  "alpha_map noise grid_strength reduction =
     point (\<lambda>p. py_int (min 255 (real_of_int (base_sub noise grid_strength) + real_of_int p * 0.6)))
       reduction"

definition alpha_base :: "int \<Rightarrow> int \<Rightarrow> real \<Rightarrow> real \<Rightarrow> int image \<Rightarrow> int image \<Rightarrow> error + int image" where
  "alpha_base w h noise grid_strength noise_img grid =
     (let reduction = chops_add (noise_scaled noise noise_img) grid
      in seq (image_new w h 255) (\<lambda>alpha.
           Inr (chops_subtract alpha (alpha_map noise grid_strength reduction))))"

definition forced :: "rgba image \<Rightarrow> int image" where
  "forced text_layer = point (\<lambda>p. if p > 16 then 230 else 0) (band alpha_of text_layer)"

definition min_alpha :: "real \<Rightarrow> real \<Rightarrow> int" where
  "min_alpha noise grid_strength =
     max 100 (min 255 (py_int (150 - 60 * (noise * 0.8 + grid_strength * 0.2))))"

definition alpha_stage ::
  "int \<Rightarrow> int \<Rightarrow> real \<Rightarrow> real \<Rightarrow> bool \<Rightarrow> rgba image \<Rightarrow> int image \<Rightarrow> int image \<Rightarrow> error + int image" where
  "alpha_stage w h noise grid_strength protect_text text_layer noise_img grid =
     seq (alpha_base w h noise grid_strength noise_img grid) (\<lambda>alpha.
       Inr (point (\<lambda>p. max (min_alpha noise grid_strength) p)
              (if protect_text then chops_lighter alpha (forced text_layer) else alpha)))"

subsection \<open>captcha.py: the overlay and the finisher\<close>

definition line_count :: "real \<Rightarrow> int" where
  "line_count noise = py_int (2 + 12 * noise)"

definition line_alpha :: "real \<Rightarrow> int" where
  "line_alpha noise = py_int (20 + 140 * noise)"

definition dot_count :: "int \<Rightarrow> int \<Rightarrow> real \<Rightarrow> int" where
  "dot_count w h noise = py_int (real_of_int (w * h) * 0.0006 * (1 + noise * 2))"

definition dot_alpha :: "real \<Rightarrow> int" where
  "dot_alpha noise = py_int (10 + 140 * noise)"

definition draw_line :: "pil \<Rightarrow> rgba image \<Rightarrow> box \<Rightarrow> int \<Rightarrow> rgba \<Rightarrow> rgba image" where
  "draw_line E ov xy wd fill =
     ov\<lparr>im_px := (\<lambda>x y. if in_image ov x y \<and> line_px E xy wd x y then rgba8 fill else im_px ov x y)\<rparr>"

definition draw_point :: "rgba image \<Rightarrow> int \<Rightarrow> int \<Rightarrow> rgba \<Rightarrow> rgba image" where
  "draw_point ov x0 y0 fill =
     ov\<lparr>im_px := (\<lambda>x y. if in_image ov x y \<and> x = x0 \<and> y = y0 then rgba8 fill else im_px ov x y)\<rparr>"

primrec line_loop :: "pil \<Rightarrow> int \<Rightarrow> int \<Rightarrow> real \<Rightarrow> nat \<Rightarrow> rgba image \<Rightarrow> rng \<Rightarrow> error + rgba image \<times> rng" where
  "line_loop E w h noise 0 ov g = Inr (ov, g)"
| "line_loop E w h noise (Suc k) ov g =
     (case random_randint 0 w g of Inl e \<Rightarrow> Inl e | Inr (x0, g1) \<Rightarrow>
     (case random_randint 0 h g1 of Inl e \<Rightarrow> Inl e | Inr (y0, g2) \<Rightarrow>
     (case random_randint 0 w g2 of Inl e \<Rightarrow> Inl e | Inr (x1, g3) \<Rightarrow>
     (case random_randint 0 h g3 of Inl e \<Rightarrow> Inl e | Inr (y1, g4) \<Rightarrow>
     (case random_randint 1 2 g4 of Inl e \<Rightarrow> Inl e | Inr (wd, g5) \<Rightarrow>
        line_loop E w h noise k
          (draw_line E ov (x0, y0, x1, y1) wd (0, 0, 0, line_alpha noise)) g5)))))"

primrec dot_loop :: "int \<Rightarrow> int \<Rightarrow> real \<Rightarrow> nat \<Rightarrow> rgba image \<Rightarrow> rng \<Rightarrow> error + rgba image \<times> rng" where
  "dot_loop w h noise 0 ov g = Inr (ov, g)"
| "dot_loop w h noise (Suc k) ov g =
     (case random_randint 0 (w - 1) g of Inl e \<Rightarrow> Inl e | Inr (x0, g1) \<Rightarrow>
     (case random_randint 0 (h - 1) g1 of Inl e \<Rightarrow> Inl e | Inr (y0, g2) \<Rightarrow>
        dot_loop w h noise k (draw_point ov x0 y0 (0, 0, 0, dot_alpha noise)) g2))"

definition overlay_stage :: "pil \<Rightarrow> int \<Rightarrow> int \<Rightarrow> real \<Rightarrow> rng \<Rightarrow> error + rgba image \<times> rng" where
  "overlay_stage E w h noise g =
     seq (image_new w h (0, 0, 0, 0)) (\<lambda>overlay.
     seq (line_loop E w h noise (nat (line_count noise)) overlay g) (\<lambda>(ov1, g1).
       dot_loop w h noise (nat (dot_count w h noise)) ov1 g1))"

definition contrast :: "int \<Rightarrow> int" where
  "contrast p = min 255 (py_int ((real_of_int p - 16) * 1.06 + 6))"

text \<open>
  \<open>out.convert("RGB").point(f)\<close>, split and merged with the alpha band: \<open>f\<close> maps each
  colour band, the alpha band passes.
\<close>

definition finish :: "rgba image \<Rightarrow> error + rgba image" where
  "finish out =
     merge_rgba (point contrast (band red_of out)) (point contrast (band green_of out))
       (point contrast (band blue_of out)) (band alpha_of out)"

subsection \<open>captcha.py: captcha\<close>

text \<open>
  The body of \<open>captcha\<close> from line 62 on, over the resolved width and the clamped knobs.
  It returns the image and the generator's state after the call.
\<close>

definition pipeline ::
  "pil \<Rightarrow> string \<Rightarrow> int \<Rightarrow> int \<Rightarrow> string option \<Rightarrow> int \<Rightarrow> int \<times> int \<Rightarrow> int
   \<Rightarrow> real \<Rightarrow> real \<Rightarrow> real \<Rightarrow> real \<Rightarrow> bool \<Rightarrow> rng \<Rightarrow> error + rgba image \<times> rng" where
  "pipeline E txt w h font_path font_size mesh_steps grid_spacing
            distortion noise grid_strength rotation protect_text g =
     seq (image_new w h (255, 255, 255, 255)) (\<lambda>base.
     seq (text_stage E font_path font_size w h rotation txt g) (\<lambda>(text_layer, g1).
     seq (alpha_composite base text_layer) (\<lambda>composed.
     case warp_stage E w h mesh_steps distortion rotation composed g1 of (warped, g2) \<Rightarrow>
     seq (noise_field E w h noise g2) (\<lambda>(noise_img, g3).
     seq (grid_overlay w h grid_spacing grid_strength) (\<lambda>grid.
     seq (alpha_stage w h noise grid_strength protect_text text_layer noise_img grid) (\<lambda>alpha.
     seq (merge_rgba (band red_of warped) (band green_of warped) (band blue_of warped) alpha) (\<lambda>out.
     seq (overlay_stage E w h noise g3) (\<lambda>(overlay, g4).
     seq (alpha_composite out overlay) (\<lambda>out2.
     seq (finish out2) (\<lambda>out3. Inr (out3, g4)))))))))))"

definition captcha :: "pil \<Rightarrow> params \<Rightarrow> rng \<Rightarrow> error + rgba image \<times> rng" where
  "captcha E p g =
     pipeline E (p_text p) (resolve_width (p_width p) (p_text p) (p_font_size p)) (p_height p)
       (p_font_path p) (p_font_size p) (p_mesh_steps p) (p_grid_spacing p)
       (clamp01 (p_distortion p)) (clamp01 (p_noise p)) (clamp01 (p_grid_strength p))
       (clamp01 (p_rotation p)) (p_protect_text p) g"

subsection \<open>web_api.py\<close>




text \<open>
  The arguments of the wrapper's call: the keywords it passes, and the defaults of
  \<open>captcha\<close> for \<open>width\<close>, \<open>font_path\<close> and \<open>protect_text\<close>, which it leaves out.
\<close>

definition request_params :: "string \<Rightarrow> params" where
  "request_params txt =
     \<lparr>p_text = txt, p_width = None, p_height = 50, p_font_path = None, p_font_size = 30,
      p_mesh_steps = (1, 11), p_grid_spacing = 16, p_distortion = 0, p_noise = 1,
      p_grid_strength = 0, p_rotation = 1, p_protect_text = True\<rparr>"


subsection \<open>Predicates used in the properties\<close>

text \<open>Every pixel of an overlay has an 8-bit alpha.\<close>

definition overlay_ok :: "rgba image \<Rightarrow> bool" where
  "overlay_ok ov = (\<forall>x y. 0 \<le> alpha_of (im_px ov x y) \<and> alpha_of (im_px ov x y) \<le> 255)"

subsection \<open>An example machine and call\<close>

text \<open>
  A machine on which no TrueType font loads; its glyph rasteriser paints a block of 10 by
  20 pixels in the fill colour, its rotation, warp and blur leave every pixel where it
  is, its noise field is flat at 128 and its lines cover no pixel. \<open>ones\<close> is a generator
  whose every raw draw is 1.
\<close>

definition flat_pil :: pil where
  "flat_pil =
     \<lparr>truetype_ok = (\<lambda>path sz. False), has_MESH = True,
      text_px = (\<lambda>fnt ch x y fill im px py.
                   if x \<le> px \<and> px < x + 10 \<and> y \<le> py \<and> py < y + 20 then fill else im_px im px py),
      rotate_expand = (\<lambda>angle im. im),
      rotate_px = (\<lambda>angle im. im_px im),
      mesh_px = (\<lambda>w h mesh im. Some (im_px im)),
      blur_px = (\<lambda>radius im. im_px im),
      effect_noise = (\<lambda>w h sigma. Some (\<lambda>x y. 128)),
      line_px = (\<lambda>xy wd x y. False),
      png_data = (\<lambda>im. [])\<rparr>"

definition ones :: rng where
  "ones = Rng (\<lambda>i. 1) 0"

text \<open>
  The same machine with a noise generator that returns a field of zeros, and a noise
  generator that answers one request only.
\<close>

definition dark_pil :: pil where
  "dark_pil = flat_pil\<lparr>effect_noise := (\<lambda>w h sigma. Some (\<lambda>x y. 0))\<rparr>"

definition spot_noise :: "int \<Rightarrow> int \<Rightarrow> int \<Rightarrow> (int \<Rightarrow> int \<Rightarrow> int) option" where
  "spot_noise w h sigma = (if w = 220 \<and> h = 50 \<and> sigma = 128 then Some (\<lambda>x y. 128) else None)"

text \<open>The glyph canvas of that machine for \<open>font_size = 30\<close> and \<open>height = 50\<close>.\<close>

definition flat_glyph :: "rgba image" where
  "flat_glyph = raster 39 50
     (\<lambda>px py. if 4 \<le> px \<and> px < 14 \<and> 8 \<le> py \<and> py < 28 then (10, 10, 10, 255) else (0, 0, 0, 0))"

text \<open>The alpha of one pixel of a call's result, when the call returns.\<close>

definition alpha_at :: "error + rgba image \<times> rng \<Rightarrow> int \<Rightarrow> int \<Rightarrow> int option" where
  "alpha_at r x y = (case r of Inl e \<Rightarrow> None | Inr (im, g) \<Rightarrow> Some (alpha_of (im_px im x y)))"




subsection \<open>Formulas as the specification words them\<close>




section \<open>Properties\<close>

subsection \<open>Numbers\<close>

lemma clip8_range: "0 \<le> clip8 v \<and> clip8 v \<le> 255"
  by (simp add: clip8_def)



lemma clamp01_range: "0 \<le> clamp01 v \<and> clamp01 v \<le> 1"
  by (simp add: clamp01_def)

lemma clamp01_idem: "clamp01 (clamp01 v) = clamp01 v"
  by (simp add: clamp01_def)

subsection \<open>Sequencing, allocation, random draws\<close>

lemma seq_Inr: "(seq m f = Inr y) = (\<exists>v. m = Inr v \<and> f v = Inr y)"
  by (cases m) (simp_all add: seq_def)

lemma seq_Inl: "(seq m f = Inl e) = (m = Inl e \<or> (\<exists>v. m = Inr v \<and> f v = Inl e))"
  by (cases m) (simp_all add: seq_def)

lemma seq_Inr_simp: "seq (Inr v) f = f v"
  by (simp add: seq_def)

lemma image_new_Inr:
  "(image_new w h c = Inr im) = (0 \<le> w \<and> 0 \<le> h \<and> im = \<lparr>im_w = w, im_h = h, im_px = (\<lambda>x y. c)\<rparr>)"
  by (auto simp: image_new_def)

lemma image_new_ok:
  "0 \<le> w \<Longrightarrow> 0 \<le> h \<Longrightarrow> image_new w h c = Inr \<lparr>im_w = w, im_h = h, im_px = (\<lambda>x y. c)\<rparr>"
  by (simp add: image_new_def)

lemma image_new_Inl: "(image_new w h c = Inl e) = (w < 0 \<or> h < 0)"
  by (cases e) (auto simp: image_new_def)

lemma randint_ok:
  "a \<le> b \<Longrightarrow> random_randint a b g =
     Inr (a + int (tape g (pos g) mod nat (b - a + 1)), Rng (tape g) (Suc (pos g)))"
  by (simp add: random_randint_def next_raw_def)

lemma randint_range:
  assumes "random_randint a b g = Inr (j, g')"
  shows "a \<le> j \<and> j \<le> b"
proof -
  from assms have ab: "a \<le> b" by (auto simp: random_randint_def split: if_splits)
  then have pos: "0 < nat (b - a + 1)" by simp
  have "tape g (pos g) mod nat (b - a + 1) < nat (b - a + 1)"
    using pos by (rule mod_less_divisor)
  then have "int (tape g (pos g) mod nat (b - a + 1)) < b - a + 1" by linarith
  moreover have "j = a + int (tape g (pos g) mod nat (b - a + 1))"
    using assms randint_ok [OF ab, of g] by simp
  ultimately show ?thesis by simp
qed

subsection \<open>The glyph renderer returns, and keeps the layer's size\<close>

lemma glyph_ok:
  assumes "0 \<le> py_int (real_of_int font_size * 1.05) + 8" and "0 \<le> h"
  shows "\<exists>im. glyph E fnt font_size h rotation ch g =
            Inr (im, snd (random_uniform (- 12 * rotation) (12 * rotation) g))"
  using assms by (simp add: glyph_def image_new_ok seq_Inr_simp Let_def)

lemma glyph_rng:
  "glyph E fnt font_size h rotation ch g = Inr (im, g1) \<Longrightarrow>
     g1 = snd (random_uniform (- 12 * rotation) (12 * rotation) g)"
  by (auto simp: glyph_def seq_Inr Let_def)

lemma paste_size: "im_w (paste dst src bx by) = im_w dst \<and> im_h (paste dst src bx by) = im_h dst"
  by (simp add: paste_def)

lemma render_text_size:
  "render_text E fnt font_size w h rotation cs layer x g = Inr (layer', x', g') \<Longrightarrow>
     im_w layer' = im_w layer \<and> im_h layer' = im_h layer"
proof (induction cs arbitrary: layer x g)
  case Nil
  then show ?case by simp
next
  case (Cons ch rest)
  then show ?case
    by (auto simp: paste_size split: sum.splits prod.splits if_splits)
qed

lemma render_text_ok:
  assumes "0 \<le> py_int (real_of_int font_size * 1.05) + 8" and "0 \<le> h"
  shows "\<exists>r. render_text E fnt font_size w h rotation cs layer x g = Inr r"
proof (induction cs arbitrary: layer x g)
  case Nil
  then show ?case by simp
next
  case (Cons ch rest)
  obtain im where gl: "glyph E fnt font_size h rotation ch g =
      Inr (im, snd (random_uniform (- 12 * rotation) (12 * rotation) g))"
    using glyph_ok [OF assms] by blast
  show ?case
    using Cons.IH by (simp add: gl randint_ok)
qed

lemma render_text_empty: "render_text E fnt font_size w h rotation [] layer x g = Inr (layer, x, g)"
  by simp

lemma text_stage_size:
  "text_stage E font_path font_size w h rotation txt g = Inr (layer, g1) \<Longrightarrow>
     im_w layer = w \<and> im_h layer = h \<and> 0 \<le> w \<and> 0 \<le> h"
  by (auto simp: text_stage_def seq_Inr image_new_Inr dest!: render_text_size)

lemma text_stage_ok:
  assumes "0 \<le> w" and "0 \<le> h"
    and "txt = [] \<or> 0 \<le> py_int (real_of_int font_size * 1.05) + 8"
  shows "\<exists>r. text_stage E font_path font_size w h rotation txt g = Inr r"
proof -
  let ?l = "\<lparr>im_w = w, im_h = h, im_px = (\<lambda>x y. (0, 0, 0, 0))\<rparr> :: rgba image"
  have "\<exists>r. render_text E (resolve_font E font_path font_size) font_size w h rotation txt ?l 20 g = Inr r"
    using assms(3)
  proof
    assume "txt = []" then show ?thesis by simp
  next
    assume "0 \<le> py_int (real_of_int font_size * 1.05) + 8"
    then show ?thesis using assms(2) by (rule render_text_ok)
  qed
  then obtain layer x g1 where
    "render_text E (resolve_font E font_path font_size) font_size w h rotation txt ?l 20 g = Inr (layer, x, g1)"
    by (metis prod_cases3)
  then show ?thesis
    using assms(1,2) by (simp add: text_stage_def image_new_ok seq_Inr_simp)
qed


subsection \<open>The warp keeps the size\<close>

lemma raster_size: "im_w (raster w h f) = w \<and> im_h (raster w h f) = h"
  by (simp add: raster_def)

lemma distort_size:
  "im_w composed = w \<Longrightarrow> im_h composed = h \<Longrightarrow>
   im_w (fst (distort E w h distortion rotation mesh composed g)) = w
   \<and> im_h (fst (distort E w h distortion rotation mesh composed g)) = h"
  by (simp add: distort_def rotate_same_def raster_size split: option.splits)

lemma smooth_size: "im_w (smooth E d c) = im_w c \<and> im_h (smooth E d c) = im_h c"
  by (simp add: smooth_def raster_size)

lemma warp_stage_fst:
  "fst (warp_stage E w h mesh_steps distortion rotation composed g) =
     smooth E distortion
       (fst (distort E w h distortion rotation (fst (build_mesh w h mesh_steps distortion g))
               composed (snd (build_mesh w h mesh_steps distortion g))))"
  by (simp add: warp_stage_def split: prod.splits)

lemma warp_stage_size:
  "im_w composed = w \<Longrightarrow> im_h composed = h \<Longrightarrow>
   im_w (fst (warp_stage E w h mesh_steps distortion rotation composed g)) = w
   \<and> im_h (fst (warp_stage E w h mesh_steps distortion rotation composed g)) = h"
  by (simp only: warp_stage_fst smooth_size distort_size)

subsection \<open>Noise field and grid\<close>

lemma manual_noise_size:
  "im_w (fst (manual_noise noise cs im g)) = im_w im \<and> im_h (fst (manual_noise noise cs im g)) = im_h im"
  by (induction cs arbitrary: im g) (simp_all add: putpixel_def)

lemma noise_field_size:
  assumes "noise_field E w h noise g = Inr (noise_img, g1)"
  shows "im_w noise_img = w \<and> im_h noise_img = h"
proof (cases "effect_noise E w h (noise_amp noise)")
  case (Some f)
  with assms show ?thesis by (auto simp: noise_field_def)
next
  case None
  with assms have "noise_img = fst (manual_noise noise (scan_order w h)
      \<lparr>im_w = w, im_h = h, im_px = (\<lambda>x y. 0)\<rparr> g)"
    by (auto simp: noise_field_def seq_Inr image_new_Inr)
  then show ?thesis by (simp add: manual_noise_size)
qed

lemma noise_field_ok:
  "0 \<le> w \<Longrightarrow> 0 \<le> h \<Longrightarrow> \<exists>r. noise_field E w h noise g = Inr r"
  by (simp add: noise_field_def image_new_ok seq_Inr_simp split: option.splits)

lemma py_range_ok: "step \<noteq> 0 \<Longrightarrow> \<exists>xs. py_range start stop step = Inr xs"
  by (simp add: py_range_def)

lemma fold_rect_x_size:
  "im_w (fold (\<lambda>gx im. rectangle im (a gx) y0 (b gx) y1 fill) xs im) = im_w im
   \<and> im_h (fold (\<lambda>gx im. rectangle im (a gx) y0 (b gx) y1 fill) xs im) = im_h im"
  by (induction xs arbitrary: im) (simp_all add: rectangle_def)

lemma fold_rect_y_size:
  "im_w (fold (\<lambda>gy im. rectangle im x0 (a gy) x1 (b gy) fill) ys im) = im_w im
   \<and> im_h (fold (\<lambda>gy im. rectangle im x0 (a gy) x1 (b gy) fill) ys im) = im_h im"
  by (induction ys arbitrary: im) (simp_all add: rectangle_def)

lemma grid_overlay_size:
  "grid_overlay w h grid_spacing grid_strength = Inr grid \<Longrightarrow> im_w grid = w \<and> im_h grid = h"
  by (auto simp: grid_overlay_def seq_Inr image_new_Inr fold_rect_x_size fold_rect_y_size)

lemma grid_overlay_ok:
  "0 \<le> w \<Longrightarrow> 0 \<le> h \<Longrightarrow> grid_spacing \<noteq> 0 \<Longrightarrow>
   \<exists>grid. grid_overlay w h grid_spacing grid_strength = Inr grid"
  using py_range_ok [of grid_spacing 0 w] py_range_ok [of grid_spacing 0 h]
  by (auto simp: grid_overlay_def image_new_ok seq_Inr_simp)

lemma grid_overlay_Inl:
  "0 \<le> w \<Longrightarrow> 0 \<le> h \<Longrightarrow> grid_spacing = 0 \<Longrightarrow>
   grid_overlay w h grid_spacing grid_strength = Inl ValueError"
  by (simp add: grid_overlay_def image_new_ok seq_Inr_simp py_range_def seq_def)

subsection \<open>The alpha channel\<close>

lemma alpha_stage_ok:
  "0 \<le> w \<Longrightarrow> 0 \<le> h \<Longrightarrow>
   \<exists>a. alpha_stage w h noise gs pt text_layer noise_img grid = Inr a"
  by (simp add: alpha_stage_def alpha_base_def image_new_ok seq_Inr_simp Let_def)

lemma alpha_base_size:
  "alpha_base w h noise gs noise_img grid = Inr a \<Longrightarrow> im_w noise_img = w \<Longrightarrow> im_h noise_img = h
   \<Longrightarrow> im_w grid = w \<Longrightarrow> im_h grid = h \<Longrightarrow> im_w a = w \<and> im_h a = h"
  by (auto simp: alpha_base_def seq_Inr image_new_Inr Let_def chops_subtract_def chops_add_def
      chop_def alpha_map_def noise_scaled_def point_def)

lemma alpha_stage_size:
  "alpha_stage w h noise gs pt text_layer noise_img grid = Inr a \<Longrightarrow>
   im_w noise_img = w \<Longrightarrow> im_h noise_img = h \<Longrightarrow> im_w grid = w \<Longrightarrow> im_h grid = h \<Longrightarrow>
   im_w text_layer = w \<Longrightarrow> im_h text_layer = h \<Longrightarrow> im_w a = w \<and> im_h a = h"
  by (auto simp: alpha_stage_def seq_Inr point_def chops_lighter_def chop_def forced_def band_def
      dest!: alpha_base_size)

subsection \<open>The overlay\<close>


lemma rgba8_alpha: "0 \<le> alpha_of (rgba8 p) \<and> alpha_of (rgba8 p) \<le> 255"
  by (cases p) (simp add: rgba8_def clip8_def)

lemma draw_line_keeps:
  "im_w (draw_line E ov xy wd fill) = im_w ov \<and> im_h (draw_line E ov xy wd fill) = im_h ov
   \<and> (overlay_ok ov \<longrightarrow> overlay_ok (draw_line E ov xy wd fill))"
  by (simp add: draw_line_def overlay_ok_def rgba8_alpha)

lemma draw_point_keeps:
  "im_w (draw_point ov x0 y0 fill) = im_w ov \<and> im_h (draw_point ov x0 y0 fill) = im_h ov
   \<and> (overlay_ok ov \<longrightarrow> overlay_ok (draw_point ov x0 y0 fill))"
  by (simp add: draw_point_def overlay_ok_def rgba8_alpha)

lemma line_loop_keeps:
  "line_loop E w h noise k ov g = Inr (ov', g') \<Longrightarrow>
     im_w ov' = im_w ov \<and> im_h ov' = im_h ov \<and> (overlay_ok ov \<longrightarrow> overlay_ok ov')"
proof (induction k arbitrary: ov g)
  case 0
  then show ?case by simp
next
  case (Suc k)
  then show ?case
    by (auto split: sum.splits prod.splits dest!: Suc.IH simp: draw_line_keeps)
qed

lemma dot_loop_keeps:
  "dot_loop w h noise k ov g = Inr (ov', g') \<Longrightarrow>
     im_w ov' = im_w ov \<and> im_h ov' = im_h ov \<and> (overlay_ok ov \<longrightarrow> overlay_ok ov')"
proof (induction k arbitrary: ov g)
  case 0
  then show ?case by simp
next
  case (Suc k)
  then show ?case
    by (auto split: sum.splits prod.splits dest!: Suc.IH simp: draw_point_keeps)
qed

lemma overlay_stage_keeps:
  assumes "overlay_stage E w h noise g = Inr (ov, g')"
  shows "im_w ov = w \<and> im_h ov = h \<and> overlay_ok ov"
proof -
  let ?o = "\<lparr>im_w = w, im_h = h, im_px = (\<lambda>x y. (0, 0, 0, 0))\<rparr> :: rgba image"
  from assms obtain ov1 g1 where
    l: "line_loop E w h noise (nat (line_count noise)) ?o g = Inr (ov1, g1)" and
    d: "dot_loop w h noise (nat (dot_count w h noise)) ov1 g1 = Inr (ov, g')"
    by (auto simp: overlay_stage_def seq_Inr image_new_Inr)
  have "overlay_ok ?o" by (simp add: overlay_ok_def)
  with line_loop_keeps [OF l] dot_loop_keeps [OF d] show ?thesis by simp
qed

lemma line_loop_ok:
  "0 \<le> w \<Longrightarrow> 0 \<le> h \<Longrightarrow> \<exists>r. line_loop E w h noise k ov g = Inr r"
  by (induction k arbitrary: ov g) (simp_all add: randint_ok)

lemma dot_loop_ok:
  "k = 0 \<or> (1 \<le> w \<and> 1 \<le> h) \<Longrightarrow> \<exists>r. dot_loop w h noise k ov g = Inr r"
  by (induction k arbitrary: ov g) (simp_all add: randint_ok)

lemma dot_count_zero:
  assumes "0 \<le> w" and "0 \<le> h" and "\<not> (1 \<le> w \<and> 1 \<le> h)"
  shows "dot_count w h noise = 0"
proof -
  from assms have "w * h = 0" by auto
  then show ?thesis
    by (simp only: dot_count_def) (simp add: py_int_def)
qed

lemma overlay_stage_ok:
  assumes "0 \<le> w" and "0 \<le> h"
  shows "\<exists>r. overlay_stage E w h noise g = Inr r"
proof -
  let ?o = "\<lparr>im_w = w, im_h = h, im_px = (\<lambda>x y. (0, 0, 0, 0))\<rparr> :: rgba image"
  obtain ov1 g1 where l: "line_loop E w h noise (nat (line_count noise)) ?o g = Inr (ov1, g1)"
    using line_loop_ok [OF assms(1,2)] by (metis surj_pair)
  have "nat (dot_count w h noise) = 0 \<or> (1 \<le> w \<and> 1 \<le> h)"
  proof (cases "1 \<le> w \<and> 1 \<le> h")
    case True
    then show ?thesis by simp
  next
    case False
    then show ?thesis using dot_count_zero [OF assms False] by simp
  qed
  then obtain r where "dot_loop w h noise (nat (dot_count w h noise)) ov1 g1 = Inr r"
    using dot_loop_ok by blast
  then show ?thesis
    using assms(1,2) l by (simp add: overlay_stage_def image_new_ok seq_Inr_simp)
qed

subsection \<open>Compositing and the finisher\<close>

lemma shift_div255_floor:
  assumes "0 \<le> d" and "d \<le> 255" and "255 * d + 128 \<le> t"
  shows "d \<le> shift_div255 t"
  using assms unfolding shift_div255_def by linarith

lemma composite_alpha_ge:
  assumes "0 \<le> alpha_of s" and "alpha_of s \<le> 255" and "0 \<le> alpha_of d" and "alpha_of d \<le> 255"
  shows "alpha_of d \<le> alpha_of (composite_px d s)"
proof (cases "alpha_of s = 0")
  case True
  then show ?thesis by (simp add: composite_px_def)
next
  case False
  have "0 \<le> alpha_of s * (255 - alpha_of d)"
    using assms by (intro mult_nonneg_nonneg) simp_all
  then have "255 * alpha_of d + 128 \<le> alpha_of s * 255 + alpha_of d * (255 - alpha_of s) + 128"
    by (simp add: algebra_simps)
  then have "alpha_of d \<le> shift_div255 (alpha_of s * 255 + alpha_of d * (255 - alpha_of s) + 128)"
    using assms(3,4) by (intro shift_div255_floor) simp_all
  with False show ?thesis by (simp add: composite_px_def Let_def)
qed

lemma alpha_composite_Inr:
  "(alpha_composite dst src = Inr out) =
     (im_w dst = im_w src \<and> im_h dst = im_h src
      \<and> out = dst\<lparr>im_px := (\<lambda>x y. composite_px (im_px dst x y) (im_px src x y))\<rparr>)"
  by (auto simp: alpha_composite_def)

lemma merge_rgba_Inr:
  "(merge_rgba r g b a = Inr out) =
     (im_w g = im_w r \<and> im_h g = im_h r \<and> im_w b = im_w r \<and> im_h b = im_h r
      \<and> im_w a = im_w r \<and> im_h a = im_h r
      \<and> out = \<lparr>im_w = im_w r, im_h = im_h r,
                im_px = (\<lambda>x y. (im_px r x y, im_px g x y, im_px b x y, im_px a x y))\<rparr>)"
  by (auto simp: merge_rgba_def)

lemma finish_eq:
  "finish out = Inr \<lparr>im_w = im_w out, im_h = im_h out,
     im_px = (\<lambda>x y. (clip8 (contrast (red_of (im_px out x y))),
                       clip8 (contrast (green_of (im_px out x y))),
                       clip8 (contrast (blue_of (im_px out x y))), alpha_of (im_px out x y)))\<rparr>"
  by (simp add: finish_def merge_rgba_def point_def band_def)

subsection \<open>What each stage draws from the generator\<close>

lemma uniform_rng: "snd (random_uniform a b g) = Rng (tape g) (Suc (pos g))"
  by (simp add: random_uniform_def random_random_def next_raw_def)

lemma random_rng: "snd (random_random g) = Rng (tape g) (Suc (pos g))"
  by (simp add: random_random_def next_raw_def)

lemma randint_rng: "random_randint a b g = Inr (j, g') \<Longrightarrow> g' = Rng (tape g) (Suc (pos g))"
  by (auto simp: random_randint_def next_raw_def split: if_splits)

lemma glyph_tape: "glyph E fnt fs h r ch g = Inr (im, g1) \<Longrightarrow> tape g1 = tape g"
  by (drule glyph_rng) (simp add: uniform_rng)

lemma render_text_tape:
  "render_text E fnt fs w h r cs layer x g = Inr (layer', x', g') \<Longrightarrow> tape g' = tape g"
proof (induction cs arbitrary: layer x g)
  case Nil
  then show ?case by simp
next
  case (Cons ch rest)
  then show ?case
    by (auto split: sum.splits prod.splits if_splits dest!: Cons.IH glyph_tape randint_rng)
qed

lemma text_stage_tape:
  "text_stage E fp fs w h r cs g = Inr (layer, g1) \<Longrightarrow> tape g1 = tape g"
  by (auto simp: text_stage_def seq_Inr dest: render_text_tape)

lemma offset_rng: "snd (offset m g) = Rng (tape g) (Suc (pos g))"
  by (simp add: offset_def uniform_rng)

lemma mesh_cell_rng:
  "snd (mesh_cell cw ch mx my ij g) = Rng (tape g) (pos g + 8)"
  by (simp add: mesh_cell_def Let_def split_def offset_rng)

lemma mesh_loop_rng:
  "snd (mesh_loop cw ch mx my cells g) = Rng (tape g) (pos g + 8 * length cells)"
proof (induction cells arbitrary: g)
  case Nil
  then show ?case by simp
next
  case (Cons c cells)
  have "snd (mesh_loop cw ch mx my (c # cells) g) =
        snd (mesh_loop cw ch mx my cells (snd (mesh_cell cw ch mx my c g)))"
    by (simp split: prod.splits)
  then show ?case by (simp add: Cons.IH mesh_cell_rng)
qed

lemma build_mesh_rng:
  "snd (build_mesh w h ms d g) =
     Rng (tape g) (pos g + 8 * (nat (max 1 (fst ms)) * nat (max 1 (snd ms))))"
  by (simp add: build_mesh_def Let_def mesh_loop_rng)

lemma distort_rng:
  "snd (distort E w h d r mesh c g) =
     (if d > 0.001 \<and> has_MESH E \<and> mesh_px E w h mesh c \<noteq> None then g
      else Rng (tape g) (Suc (pos g)))"
  by (auto simp: distort_def uniform_rng split: option.splits)

lemma warp_stage_snd:
  "snd (warp_stage E w h ms d r c g) =
     snd (distort E w h d r (fst (build_mesh w h ms d g)) c (snd (build_mesh w h ms d g)))"
  by (simp add: warp_stage_def split: prod.splits)

lemma warp_stage_tape: "tape (snd (warp_stage E w h ms d r c g)) = tape g"
  by (simp add: warp_stage_snd distort_rng build_mesh_rng)

lemma manual_noise_rng:
  "snd (manual_noise n cs im g) = Rng (tape g) (pos g + length cs)"
  by (induction cs arbitrary: im g) (simp_all add: random_rng)

lemma noise_field_tape:
  assumes "noise_field E w h n g = Inr (noise_img, g1)"
  shows "tape g1 = tape g"
proof (cases "effect_noise E w h (noise_amp n)")
  case (Some f)
  with assms show ?thesis by (auto simp: noise_field_def)
next
  case None
  with assms have "g1 = snd (manual_noise n (scan_order w h)
      \<lparr>im_w = w, im_h = h, im_px = (\<lambda>x y. 0)\<rparr> g)"
    by (auto simp: noise_field_def seq_Inr image_new_Inr)
  then show ?thesis by (simp add: manual_noise_rng)
qed

subsection \<open>The stages of one call\<close>

lemma pipeline_Inr_E:
  assumes "pipeline E cs w h fp fs ms gsp d n gs r pt g = Inr (out, g')"
  obtains text_layer :: "rgba image" and g1 and warped :: "rgba image" and g2
    and noise_img :: "int image" and g3 and grid :: "int image" and alpha :: "int image"
    and overlay :: "rgba image" where
    "0 \<le> w" and "0 \<le> h"
    and "text_stage E fp fs w h r cs g = Inr (text_layer, g1)"
    and "im_w warped = w" and "im_h warped = h"
    and "noise_field E w h n g2 = Inr (noise_img, g3)"
    and "grid_overlay w h gsp gs = Inr grid"
    and "alpha_stage w h n gs pt text_layer noise_img grid = Inr alpha"
    and "overlay_stage E w h n g3 = Inr (overlay, g')"
    and "tape g3 = tape g"
    and "im_w out = w" and "im_h out = h"
    and "\<forall>x y. alpha_of (im_px out x y) =
           alpha_of (composite_px
             (red_of (im_px warped x y), green_of (im_px warped x y),
              blue_of (im_px warped x y), im_px alpha x y)
             (im_px overlay x y))"
proof -
  from assms obtain base text_layer g1 composed noise_img g3 grid alpha out1 overlay out2 where
    base: "image_new w h (255, 255, 255, 255) = Inr base" and
    ts: "text_stage E fp fs w h r cs g = Inr (text_layer, g1)" and
    comp: "alpha_composite base text_layer = Inr composed" and
    nf: "noise_field E w h n (snd (warp_stage E w h ms d r composed g1)) = Inr (noise_img, g3)" and
    go: "grid_overlay w h gsp gs = Inr grid" and
    al: "alpha_stage w h n gs pt text_layer noise_img grid = Inr alpha" and
    mg: "merge_rgba (band red_of (fst (warp_stage E w h ms d r composed g1)))
           (band green_of (fst (warp_stage E w h ms d r composed g1)))
           (band blue_of (fst (warp_stage E w h ms d r composed g1))) alpha = Inr out1" and
    ov: "overlay_stage E w h n g3 = Inr (overlay, g')" and
    ac: "alpha_composite out1 overlay = Inr out2" and
    fi: "finish out2 = Inr out"
    unfolding pipeline_def by (auto simp: seq_Inr split_def)
  define warped where "warped = fst (warp_stage E w h ms d r composed g1)"
  define g2 where "g2 = snd (warp_stage E w h ms d r composed g1)"
  note nf = nf [folded g2_def] and mg = mg [folded warped_def]
  from base have wh: "0 \<le> w" "0 \<le> h" and bsz: "im_w base = w" "im_h base = h"
    by (auto simp: image_new_Inr)
  from comp bsz have csz: "im_w composed = w" "im_h composed = h"
    by (auto simp: alpha_composite_Inr)
  from warp_stage_size [OF csz, of E ms d r g1]
  have wsz: "im_w warped = w" "im_h warped = h" by (simp_all add: warped_def)
  from mg have o1: "out1 = \<lparr>im_w = w, im_h = h,
      im_px = (\<lambda>x y. (red_of (im_px warped x y), green_of (im_px warped x y),
                        blue_of (im_px warped x y), im_px alpha x y))\<rparr>"
    using wsz by (simp add: merge_rgba_Inr band_def)
  from ac have o2: "out2 = out1\<lparr>im_px := (\<lambda>x y. composite_px (im_px out1 x y) (im_px overlay x y))\<rparr>"
    by (simp add: alpha_composite_Inr)
  from fi have o3: "im_w out = im_w out2" "im_h out = im_h out2"
    "\<And>x y. alpha_of (im_px out x y) = alpha_of (im_px out2 x y)"
    by (auto simp: finish_eq)
  have tp: "tape g3 = tape g"
    using noise_field_tape [OF nf] text_stage_tape [OF ts]
    by (simp add: g2_def warp_stage_tape)
  have fin: "im_w out = w" "im_h out = h"
    "\<forall>x y. alpha_of (im_px out x y) =
           alpha_of (composite_px
             (red_of (im_px warped x y), green_of (im_px warped x y),
              blue_of (im_px warped x y), im_px alpha x y)
             (im_px overlay x y))"
    using o3 by (simp_all add: o2 o1)
  show thesis
    by (rule that [of text_layer g1 warped g2 noise_img g3 grid alpha overlay]) (fact wh ts wsz nf go al ov tp fin)+
qed

lemma pipeline_size:
  "pipeline E cs w h fp fs ms gsp d n gs r pt g = Inr (out, g') \<Longrightarrow> im_w out = w \<and> im_h out = h"
  by (erule pipeline_Inr_E) simp

lemma pipeline_ok:
  assumes "0 \<le> w" and "0 \<le> h" and "gsp \<noteq> 0"
    and "cs = [] \<or> 0 \<le> py_int (real_of_int fs * 1.05) + 8"
  shows "\<exists>out g'. pipeline E cs w h fp fs ms gsp d n gs r pt g = Inr (out, g')"
proof -
  let ?base = "\<lparr>im_w = w, im_h = h, im_px = (\<lambda>x y. (255, 255, 255, 255))\<rparr> :: rgba image"
  obtain text_layer g1 where ts: "text_stage E fp fs w h r cs g = Inr (text_layer, g1)"
    using text_stage_ok [OF assms(1,2,4)] by (metis surj_pair)
  from text_stage_size [OF ts] have tsz: "im_w text_layer = w" "im_h text_layer = h" by simp_all
  obtain composed where comp: "alpha_composite ?base text_layer = Inr composed"
    and csz: "im_w composed = w" "im_h composed = h"
    using tsz by (simp add: alpha_composite_Inr)
  obtain warped g2 where ws: "warp_stage E w h ms d r composed g1 = (warped, g2)"
    by (cases "warp_stage E w h ms d r composed g1")
  from warp_stage_size [OF csz, of E ms d r g1] ws
  have wsz: "im_w warped = w" "im_h warped = h" by simp_all
  obtain noise_img g3 where nf: "noise_field E w h n g2 = Inr (noise_img, g3)"
    using noise_field_ok [OF assms(1,2)] by (metis surj_pair)
  from noise_field_size [OF nf] have nsz: "im_w noise_img = w" "im_h noise_img = h" by simp_all
  obtain grid where go: "grid_overlay w h gsp gs = Inr grid"
    using grid_overlay_ok [OF assms(1,2,3)] by blast
  from grid_overlay_size [OF go] have gsz: "im_w grid = w" "im_h grid = h" by simp_all
  obtain alpha where al: "alpha_stage w h n gs pt text_layer noise_img grid = Inr alpha"
    using alpha_stage_ok [OF assms(1,2)] by blast
  from alpha_stage_size [OF al nsz gsz tsz] have asz: "im_w alpha = w" "im_h alpha = h" by simp_all
  obtain out1 where mg: "merge_rgba (band red_of warped) (band green_of warped) (band blue_of warped) alpha = Inr out1"
    and o1: "im_w out1 = w" "im_h out1 = h"
    using wsz asz by (simp add: merge_rgba_Inr band_def)
  obtain overlay g4 where ov: "overlay_stage E w h n g3 = Inr (overlay, g4)"
    using overlay_stage_ok [OF assms(1,2)] by (metis surj_pair)
  from overlay_stage_keeps [OF ov] have osz: "im_w overlay = w" "im_h overlay = h" by simp_all
  obtain out2 where ac: "alpha_composite out1 overlay = Inr out2"
    using o1 osz by (simp add: alpha_composite_Inr)
  obtain out3 where fi: "finish out2 = Inr out3"
    by (simp add: finish_eq)
  have "pipeline E cs w h fp fs ms gsp d n gs r pt g = Inr (out3, g4)"
    unfolding pipeline_def
    by (simp add: image_new_ok assms(1,2) seq_Inr_simp ts comp ws nf go al mg ov ac fi)
  then show ?thesis by blast
qed

subsection \<open>Pixels of the overlay and of the grid\<close>

lemma draw_line_px:
  "\<not> line_px E xy wd x y \<Longrightarrow> im_px (draw_line E ov xy wd fill) x y = im_px ov x y"
  by (simp add: draw_line_def)

lemma line_loop_px:
  assumes "\<forall>xy wd. \<not> line_px E xy wd x y"
  shows "line_loop E w h n k ov g = Inr (ov', g') \<Longrightarrow>
           im_px ov' x y = im_px ov x y \<and> tape g' = tape g"
proof (induction k arbitrary: ov g)
  case 0
  then show ?case by simp
next
  case (Suc k)
  then show ?case
    using assms
    by (auto split: sum.splits prod.splits dest!: Suc.IH randint_rng simp: draw_line_px)
qed

lemma dot_loop_px:
  "\<forall>i. int (tape g i mod nat w) \<noteq> x \<Longrightarrow> dot_loop w h n k ov g = Inr (ov', g') \<Longrightarrow>
     im_px ov' x y = im_px ov x y"
proof (induction k arbitrary: ov g)
  case 0
  then show ?case by simp
next
  case (Suc k)
  from Suc.prems(2) obtain x0 g1 y0 g2 where
    rx: "random_randint 0 (w - 1) g = Inr (x0, g1)" and
    ry: "random_randint 0 (h - 1) g1 = Inr (y0, g2)" and
    rest: "dot_loop w h n k (draw_point ov x0 y0 (0, 0, 0, dot_alpha n)) g2 = Inr (ov', g')"
    by (auto split: sum.splits prod.splits)
  from rx have "0 \<le> w - 1" by (auto simp: random_randint_def split: if_splits)
  with rx have "x0 = int (tape g (pos g) mod nat w)"
    by (simp add: randint_ok)
  with Suc.prems(1) have ne: "x0 \<noteq> x" by simp
  from randint_rng [OF rx] randint_rng [OF ry] have "tape g2 = tape g" by simp
  with Suc.prems(1) have "\<forall>i. int (tape g2 i mod nat w) \<noteq> x" by simp
  from Suc.IH [OF this rest] ne show ?case by (simp add: draw_point_def)
qed

lemma overlay_stage_px:
  assumes "overlay_stage E w h n g = Inr (ov, g')"
    and "\<forall>xy wd. \<not> line_px E xy wd x y"
    and "\<forall>i. int (tape g i mod nat w) \<noteq> x"
  shows "im_px ov x y = (0, 0, 0, 0)"
proof -
  let ?o = "\<lparr>im_w = w, im_h = h, im_px = (\<lambda>x y. (0, 0, 0, 0))\<rparr> :: rgba image"
  from assms(1) obtain ov1 g1 where
    l: "line_loop E w h n (nat (line_count n)) ?o g = Inr (ov1, g1)" and
    d: "dot_loop w h n (nat (dot_count w h n)) ov1 g1 = Inr (ov, g')"
    by (auto simp: overlay_stage_def seq_Inr image_new_Inr)
  from line_loop_px [OF assms(2) l] have 1: "im_px ov1 x y = (0, 0, 0, 0)" "tape g1 = tape g"
    by simp_all
  with assms(3) have "\<forall>i. int (tape g1 i mod nat w) \<noteq> x" by simp
  from dot_loop_px [OF this d] 1 show ?thesis by simp
qed

lemma rectangle_in_image: "in_image (rectangle im x0 y0 x1 y1 fill) x y = in_image im x y"
  by (simp add: rectangle_def in_image_def)

lemma fold_rect_in_image:
  "in_image (fold (\<lambda>k im. rectangle im (xa k) (ya k) (xb k) (yb k) fill) ks im) x y = in_image im x y"
  by (induction ks arbitrary: im) (simp_all add: rectangle_in_image)

lemma fold_rect_px:
  "im_px (fold (\<lambda>k im. rectangle im (xa k) (ya k) (xb k) (yb k) fill) ks im) x y =
     (if in_image im x y \<and> (\<exists>k\<in>set ks. xa k \<le> x \<and> x \<le> xb k \<and> ya k \<le> y \<and> y \<le> yb k)
      then clip8 fill else im_px im x y)"
proof (induction ks arbitrary: im)
  case Nil
  then show ?case by simp
next
  case (Cons k ks)
  show ?case
    by (simp add: Cons.IH rectangle_in_image) (auto simp: rectangle_def)
qed

lemma grid_overlay_px:
  assumes "grid_overlay w h gsp gs = Inr grid"
    and "py_range 0 w gsp = Inr gxs" and "py_range 0 h gsp = Inr gys"
  shows "im_px grid x y =
     (if 0 \<le> x \<and> x < w \<and> 0 \<le> y \<and> y < h
         \<and> ((\<exists>gx\<in>set gxs. gx - line_w gsp gs \<le> x \<and> x \<le> gx + line_w gsp gs)
            \<or> (\<exists>gy\<in>set gys. gy - line_w gsp gs \<le> y \<and> y \<le> gy + line_w gsp gs))
      then clip8 (line_opacity gs) else 0)"
proof -
  let ?g0 = "\<lparr>im_w = w, im_h = h, im_px = (\<lambda>x y. 0)\<rparr> :: int image"
  let ?gx = "fold (\<lambda>gx im. rectangle im (gx - line_w gsp gs) 0 (gx + line_w gsp gs) h (line_opacity gs)) gxs ?g0"
  let ?A = "0 \<le> x \<and> x < w \<and> 0 \<le> y \<and> y < h"
  let ?X = "\<exists>gx\<in>set gxs. gx - line_w gsp gs \<le> x \<and> x \<le> gx + line_w gsp gs"
  let ?Y = "\<exists>gy\<in>set gys. gy - line_w gsp gs \<le> y \<and> y \<le> gy + line_w gsp gs"
  from assms have g: "grid = fold (\<lambda>gy im. rectangle im 0 (gy - line_w gsp gs) w
                            (gy + line_w gsp gs) (line_opacity gs)) gys ?gx"
    by (auto simp: grid_overlay_def seq_Inr image_new_Inr)
  have i0: "in_image ?g0 x y = ?A"
    by (simp add: in_image_def)
  have i: "in_image ?gx x y = ?A"
    unfolding i0 [symmetric]
    by (rule fold_rect_in_image [where xa = "\<lambda>gx. gx - line_w gsp gs" and ya = "\<lambda>gx. 0"
          and xb = "\<lambda>gx. gx + line_w gsp gs" and yb = "\<lambda>gx. h"])
  have px: "im_px ?gx x y =
      (if in_image ?g0 x y
          \<and> (\<exists>gx\<in>set gxs. gx - line_w gsp gs \<le> x \<and> x \<le> gx + line_w gsp gs \<and> 0 \<le> y \<and> y \<le> h)
       then clip8 (line_opacity gs) else im_px ?g0 x y)"
    by (rule fold_rect_px [where xa = "\<lambda>gx. gx - line_w gsp gs" and ya = "\<lambda>gx. 0"
          and xb = "\<lambda>gx. gx + line_w gsp gs" and yb = "\<lambda>gx. h"])
  have py: "im_px grid x y =
      (if in_image ?gx x y
          \<and> (\<exists>gy\<in>set gys. 0 \<le> x \<and> x \<le> w \<and> gy - line_w gsp gs \<le> y \<and> y \<le> gy + line_w gsp gs)
       then clip8 (line_opacity gs) else im_px ?gx x y)"
    unfolding g
    by (rule fold_rect_px [where xa = "\<lambda>gy. 0" and ya = "\<lambda>gy. gy - line_w gsp gs"
          and xb = "\<lambda>gy. w" and yb = "\<lambda>gy. gy + line_w gsp gs"])
  define A where "A = ?A"
  define X where "X = ?X"
  define Y where "Y = ?Y"
  define c where "c = clip8 (line_opacity gs)"
  have px': "im_px ?gx x y = (if A \<and> X then c else 0)"
  proof (cases A)
    case True
    then have "(\<exists>gx\<in>set gxs. gx - line_w gsp gs \<le> x \<and> x \<le> gx + line_w gsp gs \<and> 0 \<le> y \<and> y \<le> h) = X"
      unfolding A_def X_def by auto
    with True show ?thesis unfolding px i0 A_def [symmetric] c_def by simp
  next
    case False
    then show ?thesis unfolding px i0 A_def [symmetric] by simp
  qed
  have py': "im_px grid x y = (if A \<and> Y then c else im_px ?gx x y)"
  proof (cases A)
    case True
    then have "(\<exists>gy\<in>set gys. 0 \<le> x \<and> x \<le> w \<and> gy - line_w gsp gs \<le> y \<and> y \<le> gy + line_w gsp gs) = Y"
      unfolding A_def Y_def by auto
    with True show ?thesis unfolding py i A_def [symmetric] c_def by simp
  next
    case False
    then show ?thesis unfolding py i A_def [symmetric] by simp
  qed
  have "im_px grid x y = (if A \<and> (X \<or> Y) then c else 0)"
    unfolding py' px' by auto
  then show ?thesis
    by (simp only: A_def X_def Y_def c_def conj_assoc)
qed

lemma grid_origin:
  assumes "grid_overlay w h gsp gs = Inr grid" and "0 < w" and "0 < h" and "0 < gsp"
  shows "im_px grid 0 0 = clip8 (line_opacity gs)"
proof -
  have "0 < (w + gsp - 1) div gsp"
    using assms(2,4) by (simp add: pos_imp_zdiv_pos_iff)
  then have "0 \<in> set (map (\<lambda>k. 0 + int k * gsp) [0 ..< nat ((w - 0 + gsp - 1) div gsp)])"
    by (auto simp: image_iff intro!: bexI [of _ 0])
  moreover have r: "py_range 0 w gsp = Inr (map (\<lambda>k. 0 + int k * gsp) [0 ..< nat ((w - 0 + gsp - 1) div gsp)])"
    "py_range 0 h gsp = Inr (map (\<lambda>k. 0 + int k * gsp) [0 ..< nat ((h - 0 + gsp - 1) div gsp)])"
    using assms(4) by (simp_all add: py_range_def)
  moreover have "1 \<le> line_w gsp gs" by (simp add: line_w_def)
  ultimately show ?thesis
    using assms(2,3) by (subst grid_overlay_px [OF assms(1) r]) auto
qed

subsection \<open>A call returns; its alpha channel\<close>

lemma width_floor:
  "max 220 (py_int v + 60) = max 220 (\<lfloor>v\<rfloor> + 60)"
proof (cases "0 \<le> v")
  case True
  then show ?thesis by (simp add: py_int_def)
next
  case False
  then have "\<lceil>v\<rceil> \<le> 0" and "\<lfloor>v\<rfloor> \<le> 0" by (simp_all add: ceiling_le_zero floor_le_zero)
  with False show ?thesis by (simp add: py_int_def)
qed

lemma captcha_size:
  "captcha E p g = Inr (out, g') \<Longrightarrow>
     im_w out = resolve_width (p_width p) (p_text p) (p_font_size p) \<and> im_h out = p_height p"
  unfolding captcha_def by (rule pipeline_size)

lemma captcha_ok:
  assumes "0 \<le> resolve_width (p_width p) (p_text p) (p_font_size p)" and "0 \<le> p_height p"
    and "p_grid_spacing p \<noteq> 0"
    and "p_text p = [] \<or> 0 \<le> py_int (real_of_int (p_font_size p) * 1.05) + 8"
  shows "\<exists>out g'. captcha E p g = Inr (out, g')"
  unfolding captcha_def using assms by (rule pipeline_ok)

lemma request_ok: "\<exists>out g'. captcha E (request_params cs) g = Inr (out, g')"
  by (rule captcha_ok) (simp_all add: request_params_def resolve_width_def py_int_def)

lemma min_alpha_range: "100 \<le> min_alpha n gs \<and> min_alpha n gs \<le> 255"
  by (simp add: min_alpha_def)

lemma clip8_lower: "m \<le> 255 \<Longrightarrow> 0 \<le> m \<Longrightarrow> m \<le> v \<Longrightarrow> m \<le> clip8 v"
  by (simp add: clip8_def)

lemma alpha_stage_floor:
  assumes "alpha_stage w h n gs pt text_layer noise_img grid = Inr a"
  shows "min_alpha n gs \<le> im_px a x y \<and> 0 \<le> im_px a x y \<and> im_px a x y \<le> 255
         \<and> (pt \<and> 16 < alpha_of (im_px text_layer x y) \<longrightarrow> 230 \<le> im_px a x y)"
proof -
  from assms obtain ab where
    a: "a = point (\<lambda>p. max (min_alpha n gs) p)
              (if pt then chops_lighter ab (forced text_layer) else ab)"
    by (auto simp: alpha_stage_def seq_Inr)
  define q where "q = im_px (if pt then chops_lighter ab (forced text_layer) else ab) x y"
  have px: "im_px a x y = clip8 (max (min_alpha n gs) q)"
    by (simp add: a point_def q_def)
  have m: "100 \<le> min_alpha n gs" "min_alpha n gs \<le> 255"
    using min_alpha_range by simp_all
  have 1: "min_alpha n gs \<le> im_px a x y"
    unfolding px using m by (intro clip8_lower) simp_all
  have 2: "0 \<le> im_px a x y \<and> im_px a x y \<le> 255"
    unfolding px by (rule clip8_range)
  have 3: "230 \<le> im_px a x y" if "pt" and "16 < alpha_of (im_px text_layer x y)"
  proof -
    have "im_px (forced text_layer) x y = 230"
      using that(2) by (simp add: forced_def point_def band_def clip8_def)
    then have "q = clip8 (max (im_px ab x y) 230)"
      using that(1) by (simp add: q_def chops_lighter_def chop_def)
    then have "230 \<le> q" by (simp add: clip8_lower)
    then show ?thesis unfolding px by (intro clip8_lower) simp_all
  qed
  from 1 2 3 show ?thesis by blast
qed

lemma pipeline_alpha_floor:
  assumes p: "pipeline E cs w h fp fs ms gsp d n gs r pt g = Inr (out, g')"
    and t: "text_stage E fp fs w h r cs g = Inr (text_layer, g1)"
  shows "min_alpha n gs \<le> alpha_of (im_px out x y)
         \<and> (pt \<and> 16 < alpha_of (im_px text_layer x y) \<longrightarrow> 230 \<le> alpha_of (im_px out x y))"
proof -
  from p obtain tlayer :: "rgba image" and ga and warped :: "rgba image" and noise_img :: "int image"
      and g3 and grid :: "int image" and alpha :: "int image" and overlay :: "rgba image" where
    ts: "text_stage E fp fs w h r cs g = Inr (tlayer, ga)" and
    al: "alpha_stage w h n gs pt tlayer noise_img grid = Inr alpha" and
    ov: "overlay_stage E w h n g3 = Inr (overlay, g')" and
    fin: "\<forall>x y. alpha_of (im_px out x y) =
           alpha_of (composite_px
             (red_of (im_px warped x y), green_of (im_px warped x y),
              blue_of (im_px warped x y), im_px alpha x y)
             (im_px overlay x y))"
    by (rule pipeline_Inr_E) (rule that, assumption+)
  from ts t have tlayer: "tlayer = text_layer" by simp
  let ?d = "(red_of (im_px warped x y), green_of (im_px warped x y),
             blue_of (im_px warped x y), im_px alpha x y)"
  from overlay_stage_keeps [OF ov] have "overlay_ok overlay" by simp
  then have s: "0 \<le> alpha_of (im_px overlay x y)" "alpha_of (im_px overlay x y) \<le> 255"
    by (simp_all add: overlay_ok_def)
  from alpha_stage_floor [OF al, of x y] tlayer
  have fl: "min_alpha n gs \<le> im_px alpha x y" "0 \<le> im_px alpha x y" "im_px alpha x y \<le> 255"
    "pt \<and> 16 < alpha_of (im_px text_layer x y) \<longrightarrow> 230 \<le> im_px alpha x y"
    by simp_all
  have "alpha_of ?d \<le> alpha_of (composite_px ?d (im_px overlay x y))"
    using s fl(2,3) by (intro composite_alpha_ge) simp_all
  then have "im_px alpha x y \<le> alpha_of (im_px out x y)"
    by (simp add: fin)
  with fl(1,4) show ?thesis by linarith
qed

lemma alpha_base_px:
  "alpha_base w h n gs noise_img grid = Inr a \<Longrightarrow>
     im_px a x y =
       clip8 (255 - clip8 (py_int (min 255 (real_of_int (base_sub n gs)
         + real_of_int (clip8 (clip8 (py_int (real_of_int (im_px noise_img x y) * n * 0.85))
                               + im_px grid x y)) * 0.6))))"
  by (auto simp: alpha_base_def seq_Inr image_new_Inr Let_def chops_subtract_def chops_add_def
      chop_def alpha_map_def noise_scaled_def point_def)

lemma noise_field_px:
  "effect_noise E w h (noise_amp n) = Some f \<Longrightarrow> noise_field E w h n g = Inr (noise_img, g1) \<Longrightarrow>
     im_px noise_img x y = clip8 (f x y)"
  by (auto simp: noise_field_def)

lemma composite_clear: "alpha_of (composite_px d (0, 0, 0, 0)) = alpha_of d"
  by (simp add: composite_px_def)

lemma pipeline_alpha_plain:
  assumes p: "pipeline E cs w h fp fs ms gsp d n gs r False g = Inr (out, g')"
    and l: "\<forall>xy wd. \<not> line_px E xy wd x y"
    and t: "\<forall>i. int (tape g i mod nat w) \<noteq> x"
    and e: "effect_noise E w h (noise_amp n) = Some f"
    and go: "grid_overlay w h gsp gs = Inr grid"
  shows "alpha_of (im_px out x y) =
     clip8 (max (min_alpha n gs)
       (clip8 (255 - clip8 (py_int (min 255 (real_of_int (base_sub n gs)
         + real_of_int (clip8 (clip8 (py_int (real_of_int (clip8 (f x y)) * n * 0.85))
                               + im_px grid x y)) * 0.6))))))"
proof -
  from p obtain layer :: "rgba image" and warped :: "rgba image" and g2 and noise_img :: "int image"
      and g3 and grid' :: "int image" and alpha :: "int image" and overlay :: "rgba image" where
    nf: "noise_field E w h n g2 = Inr (noise_img, g3)" and
    go': "grid_overlay w h gsp gs = Inr grid'" and
    al: "alpha_stage w h n gs False layer noise_img grid' = Inr alpha" and
    ov: "overlay_stage E w h n g3 = Inr (overlay, g')" and
    tp: "tape g3 = tape g" and
    fin: "\<forall>x y. alpha_of (im_px out x y) =
           alpha_of (composite_px
             (red_of (im_px warped x y), green_of (im_px warped x y),
              blue_of (im_px warped x y), im_px alpha x y)
             (im_px overlay x y))"
    by (rule pipeline_Inr_E) (rule that, assumption+)
  from go go' have gg: "grid' = grid" by simp
  from t tp have "\<forall>i. int (tape g3 i mod nat w) \<noteq> x" by simp
  from overlay_stage_px [OF ov l this] have o: "im_px overlay x y = (0, 0, 0, 0)" .
  from al obtain ab where ab: "alpha_base w h n gs noise_img grid' = Inr ab"
    and a: "alpha = point (\<lambda>p. max (min_alpha n gs) p) ab"
    by (auto simp: alpha_stage_def seq_Inr)
  have "alpha_of (im_px out x y) = im_px alpha x y"
    using fin o by (simp add: composite_clear)
  also have "\<dots> = clip8 (max (min_alpha n gs) (im_px ab x y))"
    by (simp add: a point_def)
  finally show ?thesis
    by (simp add: alpha_base_px [OF ab] noise_field_px [OF e nf] gg)
qed

subsection \<open>The example machine\<close>

lemma glyph_flat:
  "glyph flat_pil fnt 30 50 r ch g = Inr (flat_glyph, Rng (tape g) (Suc (pos g)))"
  by (simp add: glyph_def image_new_def seq_def flat_pil_def raster_def py_int_def Let_def
        rgba8_def clip8_def fun_eq_iff flat_glyph_def uniform_rng)

lemma flat_glyph_size: "im_w flat_glyph = 39 \<and> im_h flat_glyph = 50"
  by (simp add: flat_glyph_def raster_def)

lemma render_flat:
  "render_text flat_pil fnt 30 220 50 r ''5'' layer 20 g =
     Inr (paste layer flat_glyph 20 0, 20 + (20 + (- 1 + int (tape g (Suc (pos g)) mod 5))),
          Rng (tape g) (Suc (Suc (pos g))))"
  by (simp add: glyph_flat flat_glyph_size randint_ok py_int_def)

lemma text_stage_flat:
  "text_stage flat_pil fp 30 220 50 r ''5'' g =
     Inr (paste \<lparr>im_w = 220, im_h = 50, im_px = (\<lambda>x y. (0, 0, 0, 0))\<rparr> flat_glyph 20 0,
          Rng (tape g) (Suc (Suc (pos g))))"
  by (simp add: text_stage_def seq_def image_new_def render_flat del: render_text.simps)

lemma flat_ink:
  "alpha_of (im_px (paste \<lparr>im_w = 220, im_h = 50, im_px = (\<lambda>x y. (0, 0, 0, 0))\<rparr> flat_glyph 20 0) 24 8) = 255"
  by (simp add: paste_def in_image_def flat_glyph_def raster_def paste_px_def blend8_def
        div255_def shift_div255_def rgba8_def clip8_def)




subsection \<open>Pasting; decimal digits\<close>






subsection \<open>What a call takes from the noise generator\<close>

lemma try_fonts_frame: "try_fonts (E\<lparr>effect_noise := en\<rparr>) sz ps = try_fonts E sz ps"
  by (induction ps) simp_all

lemma resolve_font_frame: "resolve_font (E\<lparr>effect_noise := en\<rparr>) fp fs = resolve_font E fp fs"
  by (simp add: resolve_font_def load_font_def try_fonts_frame split: option.splits)

lemma glyph_frame: "glyph (E\<lparr>effect_noise := en\<rparr>) fnt fs h r ch g = glyph E fnt fs h r ch g"
  by (simp add: glyph_def)

lemma render_text_frame:
  "render_text (E\<lparr>effect_noise := en\<rparr>) fnt fs w h r cs layer x g = render_text E fnt fs w h r cs layer x g"
  by (induction cs arbitrary: layer x g)
     (simp_all add: glyph_frame cong: sum.case_cong prod.case_cong if_cong)

lemma text_stage_frame:
  "text_stage (E\<lparr>effect_noise := en\<rparr>) fp fs w h r cs g = text_stage E fp fs w h r cs g"
  by (simp add: text_stage_def render_text_frame resolve_font_frame)

lemma distort_frame:
  "distort (E\<lparr>effect_noise := en\<rparr>) w h d r mesh c g = distort E w h d r mesh c g"
  by (simp add: distort_def rotate_same_def cong: option.case_cong if_cong)

lemma smooth_frame: "smooth (E\<lparr>effect_noise := en\<rparr>) d c = smooth E d c"
  by (simp add: smooth_def)

lemma warp_stage_frame:
  "warp_stage (E\<lparr>effect_noise := en\<rparr>) w h ms d r c g = warp_stage E w h ms d r c g"
  by (simp add: warp_stage_def distort_frame smooth_frame)

lemma line_loop_frame:
  "line_loop (E\<lparr>effect_noise := en\<rparr>) w h n k ov g = line_loop E w h n k ov g"
  by (induction k arbitrary: ov g)
     (simp_all add: draw_line_def cong: sum.case_cong prod.case_cong)

lemma overlay_stage_frame:
  "overlay_stage (E\<lparr>effect_noise := en\<rparr>) w h n g = overlay_stage E w h n g"
  by (simp add: overlay_stage_def line_loop_frame)

lemma noise_field_frame:
  "en w h (noise_amp n) = effect_noise E w h (noise_amp n) \<Longrightarrow>
   noise_field (E\<lparr>effect_noise := en\<rparr>) w h n g = noise_field E w h n g"
  by (simp add: noise_field_def)

lemma pipeline_frame:
  "en w h (noise_amp n) = effect_noise E w h (noise_amp n) \<Longrightarrow>
   pipeline (E\<lparr>effect_noise := en\<rparr>) cs w h fp fs ms gsp d n gs r pt g
     = pipeline E cs w h fp fs ms gsp d n gs r pt g"
  by (simp add: pipeline_def text_stage_frame warp_stage_frame overlay_stage_frame noise_field_frame)

lemma scan_order_length: "length (scan_order w h) = nat w * nat h"
proof -
  have "length (concat (map (\<lambda>yy. map (\<lambda>xx. (xx, yy)) [0 .. w - 1]) ys)) = nat w * length ys" for ys :: "int list"
    by (induction ys) simp_all
  then show ?thesis by (simp add: scan_order_def)
qed

lemma noise_call_alpha:
  assumes c: "captcha E ((request_params ''5'')\<lparr>p_protect_text := False\<rparr>) ones = Inr (out, g')"
    and l: "\<forall>xy wd. \<not> line_px E xy wd 0 0"
    and e: "effect_noise E 220 50 128 = Some (\<lambda>x y. v)"
  shows "alpha_of (im_px out 0 0) =
     clip8 (max 102 (clip8 (255 - clip8 (py_int (min 255 (38
         + real_of_int (clip8 (clip8 (py_int (real_of_int (clip8 v) * 1 * 0.85)) + 48)) * 0.6))))))"
proof -
  have cl: "clamp01 1 = 1" "clamp01 0 = 0"
    by (simp_all add: clamp01_def)
  from c have p: "pipeline E ''5'' 220 50 None 30 (1, 11) 16 0 1 0 1 False ones = Inr (out, g')"
    by (simp add: captcha_def request_params_def resolve_width_def py_int_def cl)
  obtain grid where go: "grid_overlay 220 50 16 0 = Inr grid"
    using grid_overlay_ok [of 220 50 16 0] by auto
  from grid_origin [OF go] have g0: "im_px grid 0 0 = 48"
    by (simp add: line_opacity_def py_int_def clip8_def)
  have t: "\<forall>i. int (tape ones i mod nat 220) \<noteq> 0" by (simp add: ones_def)
  have na: "noise_amp 1 = 128" by (simp add: noise_amp_def py_int_def)
  have e': "effect_noise E 220 50 (noise_amp 1) = Some (\<lambda>x y. v)"
    unfolding na by (rule e)
  have b: "base_sub 1 0 = 38" by (simp add: base_sub_def py_int_def)
  have m: "min_alpha 1 0 = 102" by (simp add: min_alpha_def py_int_def)
  show ?thesis
    unfolding pipeline_alpha_plain [OF p l t e' go] g0 b m by simp
qed

subsection \<open>The parameter normaliser\<close>

text \<open>
  Claim C4. Whatever values \<open>distortion\<close>, \<open>noise\<close>, \<open>grid_strength\<close> and \<open>rotation\<close> have
  at the call, also outside \<open>[0, 1]\<close>, the rest of \<open>captcha\<close> works with their clamped
  values: \<open>clamp01 v\<close> is \<open>0\<close> below \<open>0\<close>, \<open>1\<close> above \<open>1\<close> and \<open>v\<close> in between; the body of
  \<open>captcha\<close> receives \<open>clamp01\<close> of each knob; and a call with the raw knobs is the call
  with the clamped ones.
\<close>

theorem knobs_clamped:
  "clamp01 v = (if v < 0 then 0 else if 1 < v then 1 else v)
   \<and> captcha E p g =
       pipeline E (p_text p) (resolve_width (p_width p) (p_text p) (p_font_size p)) (p_height p)
         (p_font_path p) (p_font_size p) (p_mesh_steps p) (p_grid_spacing p)
         (clamp01 (p_distortion p)) (clamp01 (p_noise p)) (clamp01 (p_grid_strength p))
         (clamp01 (p_rotation p)) (p_protect_text p) g
   \<and> captcha E p g =
       captcha E (p\<lparr>p_distortion := clamp01 (p_distortion p), p_noise := clamp01 (p_noise p),
                    p_grid_strength := clamp01 (p_grid_strength p),
                    p_rotation := clamp01 (p_rotation p)\<rparr>) g"
proof -
  have c: "clamp01 v = (if v < 0 then 0 else if 1 < v then 1 else v)"
    by (simp add: clamp01_def)
  show ?thesis
    unfolding captcha_def by (simp add: clamp01_idem c [symmetric])
qed

subsection \<open>Monotonicity in noise\<close>



subsection \<open>The size of the result\<close>

text \<open>
  Claim C5. When \<open>captcha\<close> returns an image, its height is the \<open>height\<close> given and its
  width is the \<open>width\<close> given or, when \<open>width\<close> is absent,
  \<open>max(220, floor(len(text) * font_size * 0.6) + 60)\<close>. No stage on the way changes the
  size of the buffer: the warp stage (mesh transform or rotation fallback, then blur)
  returns a buffer of the canvas size, and so do the overlay compositing and the
  finisher.
\<close>

theorem output_dimensions:
  "(captcha E p g = Inr (out, g') \<longrightarrow>
      im_h out = p_height p
      \<and> im_w out = (case p_width p of
                      Some wd \<Rightarrow> wd
                    | None \<Rightarrow> max 220 (\<lfloor>real (length (p_text p)) * real_of_int (p_font_size p) * 0.6\<rfloor> + 60)))
   \<and> (im_w c = w \<and> im_h c = h \<longrightarrow>
        im_w (fst (warp_stage E w h ms d r c gg)) = w \<and> im_h (fst (warp_stage E w h ms d r c gg)) = h)
   \<and> (alpha_composite a b = Inr ab \<longrightarrow> im_w ab = im_w a \<and> im_h ab = im_h a)
   \<and> (finish a = Inr fa \<longrightarrow> im_w fa = im_w a \<and> im_h fa = im_h a)"
proof -
  have "im_h out = p_height p
      \<and> im_w out = (case p_width p of
                      Some wd \<Rightarrow> wd
                    | None \<Rightarrow> max 220 (\<lfloor>real (length (p_text p)) * real_of_int (p_font_size p) * 0.6\<rfloor> + 60))"
    if "captcha E p g = Inr (out, g')"
    using captcha_size [OF that]
    by (simp add: resolve_width_def width_floor split: option.splits)
  moreover have "im_w (fst (warp_stage E w h ms d r c gg)) = w \<and> im_h (fst (warp_stage E w h ms d r c gg)) = h"
    if "im_w c = w \<and> im_h c = h"
    using that warp_stage_size by blast
  moreover have "im_w ab = im_w a \<and> im_h ab = im_h a" if "alpha_composite a b = Inr ab"
    using that by (auto simp: alpha_composite_Inr)
  moreover have "im_w fa = im_w a \<and> im_h fa = im_h a" if "finish a = Inr fa"
    using that by (auto simp: finish_eq)
  ultimately show ?thesis by blast
qed

theorem output_dimensions_witness:
  "\<exists>out g'. captcha flat_pil (request_params ''55978'') ones = Inr (out, g')
      \<and> im_w out = 220 \<and> im_h out = 50"
proof -
  obtain out g' where c: "captcha flat_pil (request_params ''55978'') ones = Inr (out, g')"
    using request_ok by blast
  from output_dimensions [of flat_pil "request_params ''55978''" ones out g'] c
  have "im_h out = 50 \<and> im_w out = 220"
    by (simp add: request_params_def)
  with c show ?thesis by blast
qed

subsection \<open>The alpha floors\<close>

text \<open>
  Claim C2. In a call with \<open>protect_text\<close> set, every pixel at which the alpha of the
  text layer, as rendered before the warp, exceeds 16 has alpha at least 230 in the
  returned image: the floor survives the minimum-alpha step, the overlay compositing and
  the finisher.
\<close>

theorem text_alpha_floor:
  assumes "captcha E p g = Inr (out, g')"
    and "p_protect_text p"
    and "text_stage E (p_font_path p) (p_font_size p)
           (resolve_width (p_width p) (p_text p) (p_font_size p)) (p_height p)
           (clamp01 (p_rotation p)) (p_text p) g = Inr (text_layer, g1)"
    and "in_image out x y"
    and "16 < alpha_of (im_px text_layer x y)"
  shows "230 \<le> alpha_of (im_px out x y)"
  using pipeline_alpha_floor [OF assms(1) [unfolded captcha_def] assms(3), of x y] assms(2,5)
  by simp

theorem text_alpha_floor_witness:
  "\<exists>out g' layer g1.
      captcha flat_pil (request_params ''5'') ones = Inr (out, g')
      \<and> text_stage flat_pil None 30 220 50 1 ''5'' ones = Inr (layer, g1)
      \<and> in_image out 24 8 \<and> 16 < alpha_of (im_px layer 24 8) \<and> 230 \<le> alpha_of (im_px out 24 8)"
proof -
  let ?p = "request_params ''5''"
  let ?layer = "paste \<lparr>im_w = 220, im_h = 50, im_px = (\<lambda>x y. (0, 0, 0, 0))\<rparr> flat_glyph 20 0"
  obtain out g' where c: "captcha flat_pil ?p ones = Inr (out, g')"
    using request_ok by blast
  have w: "resolve_width (p_width ?p) (p_text ?p) (p_font_size ?p) = 220"
    by (simp add: request_params_def resolve_width_def py_int_def)
  have t: "text_stage flat_pil (p_font_path ?p) (p_font_size ?p)
           (resolve_width (p_width ?p) (p_text ?p) (p_font_size ?p)) (p_height ?p)
           (clamp01 (p_rotation ?p)) (p_text ?p) ones = Inr (?layer, Rng (tape ones) (Suc (Suc (pos ones))))"
    unfolding w by (simp add: request_params_def text_stage_flat)
  have t': "text_stage flat_pil None 30 220 50 1 ''5'' ones = Inr (?layer, Rng (tape ones) (Suc (Suc (pos ones))))"
    by (rule text_stage_flat)
  from captcha_size [OF c] w have i: "in_image out 24 8"
    by (simp add: in_image_def request_params_def)
  have pt: "p_protect_text ?p" by (simp add: request_params_def)
  have ink: "16 < alpha_of (im_px ?layer 24 8)" by (simp add: flat_ink)
  from text_alpha_floor [OF c pt t i ink] have "230 \<le> alpha_of (im_px out 24 8)" .
  with c t' i ink show ?thesis by blast
qed




subsection \<open>The alpha before the floors\<close>




subsection \<open>Invalid parameters\<close>




subsection \<open>The glyph renderer\<close>



subsection \<open>The transport wrapper\<close>



subsection \<open>Sources of randomness\<close>

text \<open>
  Claim C10, as amended. Two invocations with the same arguments, the same state of
  Python's generator at entry, the same fonts and rasterisers, and the same outcome of
  \<open>Image.effect_noise\<close> for the call's size and amplitude return the same image and leave
  the same generator state: of the noise generator a call uses nothing but that one
  outcome. Python's generator is drawn on branches whose result is dropped: the mesh
  loop makes its 8 draws for each of the \<open>nx * ny\<close> cells whatever the distortion, and
  for \<open>distortion \<le> 0.001\<close> the mesh is dropped and one more draw turns the image. The
  manual noise draws \<open>w * h\<close> times only when \<open>effect_noise\<close> raises. The claim as
  written lets Python's generator be the only source of randomness, and fails:
  \<open>effect_noise\<close> has a generator of its own, and two calls that differ in nothing but
  its field return different images.
\<close>

theorem noise_source:
  "(en (resolve_width (p_width p) (p_text p) (p_font_size p)) (p_height p) (noise_amp (clamp01 (p_noise p)))
      = effect_noise E (resolve_width (p_width p) (p_text p) (p_font_size p)) (p_height p)
          (noise_amp (clamp01 (p_noise p))) \<longrightarrow>
      captcha (E\<lparr>effect_noise := en\<rparr>) p g = captcha E p g)
   \<and> snd (build_mesh w h ms d g) =
        Rng (tape g) (pos g + 8 * (nat (max 1 (fst ms)) * nat (max 1 (snd ms))))
   \<and> (d \<le> 0.001 \<longrightarrow>
        warp_stage E w h ms d r c g =
          (smooth E d (rotate_same E
             (fst (random_uniform (- 1) 1 (snd (build_mesh w h ms d g))) * r) c),
           Rng (tape g) (pos g + 8 * (nat (max 1 (fst ms)) * nat (max 1 (snd ms))) + 1)))
   \<and> (effect_noise E w h (noise_amp n) = None \<and> 0 \<le> w \<and> 0 \<le> h \<longrightarrow>
        (\<exists>noise_img. noise_field E w h n g = Inr (noise_img, Rng (tape g) (pos g + nat w * nat h))))"
proof -
  have 1: "captcha (E\<lparr>effect_noise := en\<rparr>) p g = captcha E p g"
    if "en (resolve_width (p_width p) (p_text p) (p_font_size p)) (p_height p) (noise_amp (clamp01 (p_noise p)))
      = effect_noise E (resolve_width (p_width p) (p_text p) (p_font_size p)) (p_height p)
          (noise_amp (clamp01 (p_noise p)))"
    unfolding captcha_def using that by (rule pipeline_frame)
  have 2: "snd (build_mesh w h ms d g) =
        Rng (tape g) (pos g + 8 * (nat (max 1 (fst ms)) * nat (max 1 (snd ms))))"
    by (rule build_mesh_rng)
  have 3: "warp_stage E w h ms d r c g =
          (smooth E d (rotate_same E
             (fst (random_uniform (- 1) 1 (snd (build_mesh w h ms d g))) * r) c),
           Rng (tape g) (pos g + 8 * (nat (max 1 (fst ms)) * nat (max 1 (snd ms))) + 1))"
    if "d \<le> 0.001"
  proof -
    have "\<not> d > 0.001" using that by simp
    then have "distort E w h d r (fst (build_mesh w h ms d g)) c (snd (build_mesh w h ms d g)) =
       (rotate_same E (fst (random_uniform (- 1) 1 (snd (build_mesh w h ms d g))) * r) c,
        snd (random_uniform (- 1) 1 (snd (build_mesh w h ms d g))))"
      unfolding distort_def by (simp only: simp_thms if_False)
    then have dd: "fst (warp_stage E w h ms d r c g) =
          smooth E d (rotate_same E (fst (random_uniform (- 1) 1 (snd (build_mesh w h ms d g))) * r) c)"
      and ss: "snd (warp_stage E w h ms d r c g) =
          Rng (tape g) (pos g + 8 * (nat (max 1 (fst ms)) * nat (max 1 (snd ms))) + 1)"
      by (simp_all add: warp_stage_fst warp_stage_snd uniform_rng build_mesh_rng)
    show ?thesis
      by (rule prod_eqI) (simp_all only: dd ss fst_conv snd_conv)
  qed
  have 4: "\<exists>noise_img. noise_field E w h n g = Inr (noise_img, Rng (tape g) (pos g + nat w * nat h))"
    if "effect_noise E w h (noise_amp n) = None \<and> 0 \<le> w \<and> 0 \<le> h"
  proof -
    let ?im = "\<lparr>im_w = w, im_h = h, im_px = (\<lambda>x y. 0)\<rparr> :: int image"
    have "noise_field E w h n g = Inr (manual_noise n (scan_order w h) ?im g)"
      using that by (simp add: noise_field_def image_new_ok seq_Inr_simp)
    moreover have "snd (manual_noise n (scan_order w h) ?im g) = Rng (tape g) (pos g + nat w * nat h)"
      by (simp add: manual_noise_rng scan_order_length)
    ultimately show ?thesis by (metis prod.collapse)
  qed
  from 1 2 3 4 show ?thesis by blast
qed

theorem noise_source_witness:
  "captcha (flat_pil\<lparr>effect_noise := spot_noise\<rparr>) (request_params ''5'') ones
     = captcha flat_pil (request_params ''5'') ones
   \<and> snd (build_mesh 220 50 (1, 11) 0 ones) = Rng (tape ones) 88"
proof -
  have "spot_noise 220 50 128 = effect_noise flat_pil 220 50 128"
    by (simp add: spot_noise_def flat_pil_def)
  then show ?thesis
    using noise_source [of spot_noise "request_params ''5''" flat_pil ones 220 50 "(1, 11)" 0 0 flat_glyph 0]
    by (simp add: request_params_def resolve_width_def py_int_def clamp01_def noise_amp_def ones_def)
qed

theorem noise_source_counterexample:
  "alpha_at (captcha flat_pil ((request_params ''5'')\<lparr>p_protect_text := False\<rparr>) ones) 0 0 = Some 124
   \<and> alpha_at (captcha dark_pil ((request_params ''5'')\<lparr>p_protect_text := False\<rparr>) ones) 0 0 = Some 189
   \<and> resolve_font dark_pil None 30 = resolve_font flat_pil None 30"
proof -
  let ?p = "(request_params ''5'')\<lparr>p_protect_text := False\<rparr>"
  obtain out1 g1 where c1: "captcha flat_pil ?p ones = Inr (out1, g1)"
    using captcha_ok [of ?p flat_pil ones]
    by (auto simp: request_params_def resolve_width_def py_int_def)
  obtain out2 g2 where c2: "captcha dark_pil ?p ones = Inr (out2, g2)"
    using captcha_ok [of ?p dark_pil ones]
    by (auto simp: request_params_def resolve_width_def py_int_def)
  have "alpha_of (im_px out1 0 0) = 124"
    by (subst noise_call_alpha [OF c1, of 128])
       (simp_all add: flat_pil_def py_int_def clip8_def)
  moreover have "alpha_of (im_px out2 0 0) = 189"
    by (subst noise_call_alpha [OF c2, of 0])
       (simp_all add: dark_pil_def flat_pil_def py_int_def clip8_def)
  moreover have "resolve_font dark_pil None 30 = resolve_font flat_pil None 30"
    unfolding dark_pil_def by (rule resolve_font_frame)
  ultimately show ?thesis
    using c1 c2 by (simp add: alpha_at_def)
qed

end
